theory Spec2Isabelle
  imports Main "HOL-Library.AList" "HOL-Library.Word"
begin

section \<open>The hub of pylgbst: message routing and attachment tracking\<close>

text \<open>
  This theory embeds \<^verbatim>\<open>src/pylgbst/hub.py\<close>: the class \<^verbatim>\<open>Hub\<close> (synchronous
  requests, notification routing, the built-in handlers) and its subclass
  \<^verbatim>\<open>MoveHub\<close> (the shortcut fields and the wait for the built-in devices).

  Conventions of the embedding.
  \<^item> An object with fields is a record; \<^verbatim>\<open>MoveHub(Hub)\<close> is a record extension, and
    the methods of \<^verbatim>\<open>Hub\<close> are functions on the record scheme, so that they
    run on a \<^verbatim>\<open>MoveHub\<close> as well.
  \<^item> A method takes the object and returns the pair of the exception it raised
    (\<open>None\<close> for a normal return) and the object as the method left it. The state
    is kept on a raise too, because Python keeps every assignment made before it.
  \<^item> The modules \<^verbatim>\<open>pylgbst.messages\<close>, \<^verbatim>\<open>pylgbst.peripherals\<close> and
    \<^verbatim>\<open>pylgbst.utilities\<close> are not part of the sources. Their constants and
    functions that \<^verbatim>\<open>hub.py\<close> uses are the fields of one record of parameters,
    \<open>ext\<close>; every definition below takes it as its first argument and every
    theorem holds for all of its values.
  \<^item> Calls whose effect lies outside the hub (writes to the connection, the log,
    \<^verbatim>\<open>time.sleep\<close>, callbacks) are recorded in the state in the order they occur.
  \<^item> \<^verbatim>\<open>threading.Lock\<close> is not modelled: each method body runs as one step, and the
    thread that delivers notifications is an input (a list of notifications, or a
    function on the state) of the two places that wait for it.
  \<^item> Left out are \<^verbatim>\<open>Hub.__del__\<close>, which closes the connection, and
    \<^verbatim>\<open>Hub.disconnect\<close>, \<^verbatim>\<open>Hub.switch_off\<close> and \<^verbatim>\<open>MoveHub._report_status\<close>,
    which construct messages of classes that the missing module defines and pass
    them to \<^verbatim>\<open>send\<close> like any other caller.
\<close>

subsection \<open>Messages\<close>

type_synonym bytes = "8 word list"

text \<open>
  The message classes \<^verbatim>\<open>hub.py\<close> names. \<^verbatim>\<open>isinstance(msg, C)\<close> is equality of the
  tag: the sources show no subclass relation between the classes used as tags.
\<close>

datatype msg_class =
    MsgHubAttachedIO
  | MsgPortValueSingle
  | MsgPortValueCombined
  | MsgGenericError
  | MsgHubAction
  | MsgHubProperties
  | MsgHubAlert
  | MsgOther nat

text \<open>
  An upstream message with the attributes read in \<^verbatim>\<open>hub.py\<close>. Attributes a class
  does not have are fields nobody reads.
\<close>

record upstream_msg =
  mclass :: msg_class
  port :: nat
  event :: nat
  payload :: bytes
  action :: nat

text \<open>
  A downstream message: \<^verbatim>\<open>needs_reply\<close> is the one attribute read; \<open>dtype\<close> and
  \<open>dbody\<close> stand for the rest of its content.
\<close>

record downstream_msg =
  needs_reply :: bool
  dtype :: nat
  dbody :: bytes

subsection \<open>Peripherals\<close>

datatype periph_class =
    Peripheral
  | Motor
  | EncodedMotor
  | VisionSensor
  | LEDRGB
  | TiltSensor
  | Current
  | Voltage

text \<open>
  A peripheral object. \<open>obj_id\<close> is the identity of the Python object (what
  \<^verbatim>\<open>id()\<close> tells apart): two objects built by two constructor calls differ in it
  even when all their attributes agree.
\<close>

record peripheral =
  obj_id :: nat
  pclass :: periph_class
  periph_port :: nat
  virtual_ports :: "(nat \<times> nat) option"

text \<open>
  Modelled from the spec: the constructors of the peripheral classes
  (\<^verbatim>\<open>pylgbst.peripherals\<close> is not part of the sources). A peripheral receives the
  hub and the port at construction and has no virtual-port pair yet. There is one
  hub, so the back-reference is left out.
\<close>

definition new_peripheral :: "periph_class \<Rightarrow> nat \<Rightarrow> nat \<Rightarrow> peripheral" where
  "new_peripheral c p i =
     \<lparr>obj_id = i, pclass = c, periph_port = p, virtual_ports = None\<rparr>"

subsection \<open>What the missing modules provide\<close>

text \<open>
  The constants of \<^verbatim>\<open>MsgHubAttachedIO\<close> and \<^verbatim>\<open>MsgHubAction\<close>, the helpers
  \<^verbatim>\<open>usbyte\<close> and \<^verbatim>\<open>ushort\<close> (\<open>None\<close> when the helper raises), the methods
  \<^verbatim>\<open>bytes()\<close>, \<^verbatim>\<open>is_reply(msg)\<close> and \<^verbatim>\<open>message()\<close>, and the list
  \<^verbatim>\<open>UPSTREAM_MSGS\<close> as pairs of a class's \<^verbatim>\<open>TYPE\<close> and its \<^verbatim>\<open>decode\<close>
  (\<open>None\<close> when it raises).
\<close>

record ext =
  EVENT_DETACHED :: nat
  EVENT_ATTACHED :: nat
  EVENT_ATTACHED_VIRTUAL :: nat
  DEV_MOTOR :: nat
  DEV_MOTOR_EXTERNAL_TACHO :: nat
  DEV_MOTOR_INTERNAL_TACHO :: nat
  DEV_VISION_SENSOR :: nat
  DEV_RGB_LIGHT :: nat
  DEV_TILT_EXTERNAL :: nat
  DEV_TILT_INTERNAL :: nat
  DEV_CURRENT :: nat
  DEV_VOLTAGE :: nat
  UPSTREAM_DISCONNECT :: nat
  UPSTREAM_SHUTDOWN :: nat
  usbyte :: "bytes \<Rightarrow> nat \<Rightarrow> nat option"
  ushort :: "bytes \<Rightarrow> nat \<Rightarrow> nat option"
  msg_bytes :: "downstream_msg \<Rightarrow> bytes"
  is_reply :: "downstream_msg \<Rightarrow> upstream_msg \<Rightarrow> bool"
  message :: "upstream_msg \<Rightarrow> string"
  UPSTREAM_MSGS :: "(nat \<times> (bytes \<Rightarrow> upstream_msg option)) list"

text \<open>
  \<^verbatim>\<open>PERIPHERAL_TYPES\<close>, a dict literal: a later entry with the key of an earlier
  one replaces it, which is what the map update does.
\<close>

definition PERIPHERAL_TYPES :: "ext \<Rightarrow> (nat \<rightharpoonup> periph_class)" where
  "PERIPHERAL_TYPES e =
     [DEV_MOTOR e \<mapsto> Motor,
      DEV_MOTOR_EXTERNAL_TACHO e \<mapsto> EncodedMotor,
      DEV_MOTOR_INTERNAL_TACHO e \<mapsto> EncodedMotor,
      DEV_VISION_SENSOR e \<mapsto> VisionSensor,
      DEV_RGB_LIGHT e \<mapsto> LEDRGB,
      DEV_TILT_EXTERNAL e \<mapsto> TiltSensor,
      DEV_TILT_INTERNAL e \<mapsto> TiltSensor,
      DEV_CURRENT e \<mapsto> Current,
      DEV_VOLTAGE e \<mapsto> Voltage]"

subsection \<open>The state of a hub\<close>

datatype error =
    AssertionError
  | KeyError nat
  | RuntimeError string
  | HelperError
  | Blocked

text \<open>
  \<open>HelperError\<close> is whatever \<^verbatim>\<open>usbyte\<close>, \<^verbatim>\<open>ushort\<close> or a \<^verbatim>\<open>decode\<close> raises.
  \<open>Blocked\<close> is not an exception: the call waits on the reply queue and nothing
  in the run that the model was given wakes it.
\<close>

datatype handler =
    HandleDeviceChange
  | HandleSensorData
  | HandleError
  | HandleAction
  | External nat

text \<open>
  The bound methods that \<^verbatim>\<open>__init__\<close> registers, and \<open>External k\<close> for a
  callback that code outside this module registers through
  \<^verbatim>\<open>add_message_handler\<close>; of such a callback the model records the call only.
\<close>

datatype log_entry =
    Debug_Send downstream_msg
  | Debug_Waiting downstream_msg
  | Debug_Fetched upstream_msg
  | Debug_Notification nat bytes
  | Debug_Decoded upstream_msg
  | Debug_Found upstream_msg
  | Debug_Handling handler upstream_msg
  | Warning_CommandError string
  | Warning_HubDisconnects
  | Warning_HubSwitchesOff
  | Debug_Detaching peripheral
  | Warning_NoClass nat nat
  | Info_Attached peripheral
  | Warning_NoDevice nat
  | Debug_AllPresent "peripheral option list"
  | Debug_WaitingDevices "peripheral option list"
  | Warning_GotOnly "peripheral option list"

text \<open>
  The fields of \<^verbatim>\<open>Hub\<close>. \<^verbatim>\<open>peripherals\<close> is a dict, kept as the list of its
  items; \<^verbatim>\<open>_sync_replies\<close> is \<^verbatim>\<open>queue.Queue(1)\<close>, kept as the list of its
  items. Of the connection the state holds the calls made on it: \<open>written\<close>
  (\<^verbatim>\<open>write(handle, data)\<close>) and \<open>disconnects\<close>. \<open>logged\<close> holds the log calls,
  \<open>called\<close> the calls of external callbacks, \<open>queued\<close> the
  \<^verbatim>\<open>queue_port_data\<close> calls on peripherals, and \<open>next_id\<close> is the identity the
  next constructed object gets.
\<close>

record hub =
  msg_handlers :: "(msg_class \<times> handler) list"
  peripherals :: "(nat \<times> peripheral) list"
  sync_request :: "downstream_msg option"
  sync_replies :: "upstream_msg list"
  written :: "(nat \<times> bytes) list"
  disconnects :: nat
  logged :: "log_entry list"
  called :: "(nat \<times> upstream_msg) list"
  queued :: "(peripheral \<times> upstream_msg) list"
  next_id :: nat

definition HUB_HARDWARE_HANDLE :: nat where
  "HUB_HARDWARE_HANDLE = 0x0E"

definition log_call :: "log_entry \<Rightarrow> 'a hub_scheme \<Rightarrow> 'a hub_scheme" where
  "log_call l h = h\<lparr>logged := logged h @ [l]\<rparr>"

text \<open>The state \<^verbatim>\<open>Hub.__init__\<close> builds, with a connection nothing was written to.\<close>

definition Hub_init :: hub where
  "Hub_init =
     \<lparr>msg_handlers =
        [(MsgHubAttachedIO, HandleDeviceChange),
         (MsgPortValueSingle, HandleSensorData),
         (MsgPortValueCombined, HandleSensorData),
         (MsgGenericError, HandleError),
         (MsgHubAction, HandleAction)],
      peripherals = [],
      sync_request = None,
      sync_replies = [],
      written = [],
      disconnects = 0,
      logged = [],
      called = [],
      queued = [],
      next_id = 0\<rparr>"

definition add_message_handler ::
  "msg_class \<Rightarrow> handler \<Rightarrow> 'a hub_scheme \<Rightarrow> 'a hub_scheme" where
  "add_message_handler classname callback h =
     h\<lparr>msg_handlers := msg_handlers h @ [(classname, callback)]\<rparr>"

subsection \<open>The attachment handler\<close>

text \<open>
  \<^verbatim>\<open>self.peripherals[port] = C(self, port)\<close>: the constructor call takes the next
  identity, and the dict assignment replaces the value of a key already there and
  appends a new key otherwise.
\<close>

definition install :: "periph_class \<Rightarrow> nat \<Rightarrow> 'a hub_scheme \<Rightarrow> 'a hub_scheme" where
  "install c p h =
     h\<lparr>peripherals := AList.update p (new_peripheral c p (next_id h)) (peripherals h),
       next_id := Suc (next_id h)\<rparr>"

text \<open>
  \<^verbatim>\<open>self.peripherals[p]\<close>: the lookup raises \<^verbatim>\<open>KeyError\<close> for a missing key.
\<close>

definition lookup :: "'a hub_scheme \<Rightarrow> nat \<Rightarrow> error + peripheral" where
  "lookup h p =
     (case map_of (peripherals h) p of None \<Rightarrow> Inl (KeyError p) | Some dev \<Rightarrow> Inr dev)"

text \<open>
  Lines 145 to 151. Both list comprehensions of an attached event are evaluated,
  so \<^verbatim>\<open>usbyte\<close> reads payload bytes 2 to 9 and raises if it cannot. A virtual
  attachment evaluates the pair of bytes 2 and 3 first and then assigns it to the
  peripheral found at the port.
\<close>

definition attach_details ::
  "ext \<Rightarrow> 'a hub_scheme \<Rightarrow> upstream_msg \<Rightarrow> error option \<times> 'a hub_scheme" where
  "attach_details e h msg =
     (if event msg = EVENT_ATTACHED e then
        (if list_all (\<lambda>x. usbyte e (payload msg) x \<noteq> None) ([2..<6] @ [6..<10])
         then (None, h)
         else (Some HelperError, h))
      else if event msg = EVENT_ATTACHED_VIRTUAL e then
        (case usbyte e (payload msg) 2 of
           None \<Rightarrow> (Some HelperError, h)
         | Some a \<Rightarrow>
             (case usbyte e (payload msg) 3 of
                None \<Rightarrow> (Some HelperError, h)
              | Some b \<Rightarrow>
                  (case lookup h (port msg) of
                     Inl err \<Rightarrow> (Some err, h)
                   | Inr dev \<Rightarrow>
                       (None, h\<lparr>peripherals :=
                          AList.update (port msg) (dev\<lparr>virtual_ports := Some (a, b)\<rparr>)
                            (peripherals h)\<rparr>))))
      else (None, h))"

text \<open>
  \<^verbatim>\<open>Hub._handle_device_change\<close>, lines 127 to 151. On a detach the argument of
  \<^verbatim>\<open>log.debug\<close> is evaluated first, so a port that is not a key raises there,
  before \<^verbatim>\<open>pop\<close>.
\<close>

definition handle_device_change ::
  "ext \<Rightarrow> 'a hub_scheme \<Rightarrow> upstream_msg \<Rightarrow> error option \<times> 'a hub_scheme" where
  "handle_device_change e h msg =
     (if event msg = EVENT_DETACHED e then
        (case lookup h (port msg) of
           Inl err \<Rightarrow> (Some err, h)
         | Inr dev \<Rightarrow>
             (None, (log_call (Debug_Detaching dev) h)
                \<lparr>peripherals := AList.delete (port msg) (peripherals h)\<rparr>))
      else if event msg \<noteq> EVENT_ATTACHED e \<and> event msg \<noteq> EVENT_ATTACHED_VIRTUAL e then
        (Some AssertionError, h)
      else
        (case ushort e (payload msg) 0 of
           None \<Rightarrow> (Some HelperError, h)
         | Some dev_type \<Rightarrow>
             (let h1 = (case PERIPHERAL_TYPES e dev_type of
                          Some c \<Rightarrow> install c (port msg) h
                        | None \<Rightarrow>
                            install Peripheral (port msg)
                              (log_call (Warning_NoClass dev_type (port msg)) h))
              in (case lookup h1 (port msg) of
                    Inl err \<Rightarrow> (Some err, h1)
                  | Inr dev \<Rightarrow> attach_details e (log_call (Info_Attached dev) h1) msg))))"

subsection \<open>The other built-in handlers\<close>

text \<open>
  \<^verbatim>\<open>Queue.put\<close> on the reply queue of size 1: with the slot taken the call waits
  for a \<^verbatim>\<open>get\<close> of another thread.
\<close>

definition queue_put ::
  "upstream_msg \<Rightarrow> 'a hub_scheme \<Rightarrow> error option \<times> 'a hub_scheme" where
  "queue_put msg h =
     (if length (sync_replies h) < 1 then (None, h\<lparr>sync_replies := sync_replies h @ [msg]\<rparr>)
      else (Some Blocked, h))"

text \<open>
  \<^verbatim>\<open>Hub._handle_sensor_data\<close>, lines 153 to 160. \<^verbatim>\<open>queue_port_data\<close> is a method
  of the peripheral; the call is recorded.
\<close>

definition handle_sensor_data ::
  "ext \<Rightarrow> 'a hub_scheme \<Rightarrow> upstream_msg \<Rightarrow> error option \<times> 'a hub_scheme" where
  "handle_sensor_data e h msg =
     (if mclass msg \<noteq> MsgPortValueSingle \<and> mclass msg \<noteq> MsgPortValueCombined then
        (Some AssertionError, h)
      else
        (case lookup h (port msg) of
           Inl err \<Rightarrow> (None, log_call (Warning_NoDevice (port msg)) h)
         | Inr device \<Rightarrow> (None, h\<lparr>queued := queued h @ [(device, msg)]\<rparr>)))"

text \<open>
  \<^verbatim>\<open>Hub._handle_error\<close>, lines 109 to 114: the request is cleared first, the
  message is put into the reply queue second.
\<close>

definition handle_error ::
  "ext \<Rightarrow> 'a hub_scheme \<Rightarrow> upstream_msg \<Rightarrow> error option \<times> 'a hub_scheme" where
  "handle_error e h msg =
     (let h1 = log_call (Warning_CommandError (message e msg)) h
      in if sync_request h1 \<noteq> None then queue_put msg (h1\<lparr>sync_request := None\<rparr>)
         else (None, h1))"

text \<open>\<^verbatim>\<open>Hub._handle_action\<close>, lines 116 to 125.\<close>

definition handle_action ::
  "ext \<Rightarrow> 'a hub_scheme \<Rightarrow> upstream_msg \<Rightarrow> error option \<times> 'a hub_scheme" where
  "handle_action e h msg =
     (if action msg = UPSTREAM_DISCONNECT e then
        (None, (log_call Warning_HubDisconnects h)\<lparr>disconnects := Suc (disconnects h)\<rparr>)
      else if action msg = UPSTREAM_SHUTDOWN e then
        (None, (log_call Warning_HubSwitchesOff h)\<lparr>disconnects := Suc (disconnects h)\<rparr>)
      else (None, h))"

subsection \<open>Notifications\<close>

text \<open>
  \<^verbatim>\<open>Hub._get_upstream_msg\<close>, lines 98 to 107: the first class of
  \<^verbatim>\<open>UPSTREAM_MSGS\<close> whose \<^verbatim>\<open>TYPE\<close> is byte 2 of the data decodes it; with no
  such class \<^verbatim>\<open>msg\<close> stays \<^verbatim>\<open>None\<close> and the assertion fails.
\<close>

definition get_upstream_msg :: "ext \<Rightarrow> bytes \<Rightarrow> error + upstream_msg" where
  "get_upstream_msg e data =
     (case usbyte e data 2 of
        None \<Rightarrow> Inl HelperError
      | Some msg_type \<Rightarrow>
          (case List.find (\<lambda>msg_kind. msg_type = fst msg_kind) (UPSTREAM_MSGS e) of
             None \<Rightarrow> Inl AssertionError
           | Some msg_kind \<Rightarrow>
               (case snd msg_kind data of
                  None \<Rightarrow> Inl HelperError
                | Some msg \<Rightarrow> Inr msg)))"

text \<open>
  What calling a registered handler does. \<open>own\<close> is the method
  \<^verbatim>\<open>_handle_device_change\<close> of the object's class, which \<^verbatim>\<open>MoveHub\<close> overrides.
\<close>

definition run_handler ::
  "ext \<Rightarrow> (ext \<Rightarrow> 'a hub_scheme \<Rightarrow> upstream_msg \<Rightarrow> error option \<times> 'a hub_scheme) \<Rightarrow>
   handler \<Rightarrow> 'a hub_scheme \<Rightarrow> upstream_msg \<Rightarrow> error option \<times> 'a hub_scheme" where
  "run_handler e own f h msg =
     (case f of
        HandleDeviceChange \<Rightarrow> own e h msg
      | HandleSensorData \<Rightarrow> handle_sensor_data e h msg
      | HandleError \<Rightarrow> handle_error e h msg
      | HandleAction \<Rightarrow> handle_action e h msg
      | External k \<Rightarrow> (None, h\<lparr>called := called h @ [(k, msg)]\<rparr>))"

text \<open>
  The loop of lines 93 to 96 over the handler table: every entry whose class is
  the class of the message is called, in the order of registration; a handler that
  raises ends the loop.
\<close>

fun dispatch ::
  "ext \<Rightarrow> (ext \<Rightarrow> 'a hub_scheme \<Rightarrow> upstream_msg \<Rightarrow> error option \<times> 'a hub_scheme) \<Rightarrow>
   (msg_class \<times> handler) list \<Rightarrow> 'a hub_scheme \<Rightarrow> upstream_msg \<Rightarrow>
   error option \<times> 'a hub_scheme" where
  "dispatch e own [] h msg = (None, h)"
| "dispatch e own ((msg_class, f) # rest) h msg =
     (if mclass msg = msg_class then
        (case run_handler e own f (log_call (Debug_Handling f msg) h) msg of
           (Some err, h') \<Rightarrow> (Some err, h')
         | (None, h') \<Rightarrow> dispatch e own rest h' msg)
      else dispatch e own rest h msg)"

text \<open>
  Lines 86 to 91, the correlation of a message with the pending request: the
  message is put into the reply queue first, the request is cleared second.
\<close>

definition correlate ::
  "ext \<Rightarrow> 'a hub_scheme \<Rightarrow> upstream_msg \<Rightarrow> error option \<times> 'a hub_scheme" where
  "correlate e h msg =
     (case sync_request h of
        None \<Rightarrow> (None, h)
      | Some req \<Rightarrow>
          (if is_reply e req msg then
             (case queue_put msg (log_call (Debug_Found msg) h) of
                (Some err, h') \<Rightarrow> (Some err, h')
              | (None, h') \<Rightarrow> (None, h'\<lparr>sync_request := None\<rparr>))
           else (None, h)))"

text \<open>\<^verbatim>\<open>Hub._notify\<close>, lines 81 to 96.\<close>

definition notify ::
  "ext \<Rightarrow> (ext \<Rightarrow> 'a hub_scheme \<Rightarrow> upstream_msg \<Rightarrow> error option \<times> 'a hub_scheme) \<Rightarrow>
   'a hub_scheme \<Rightarrow> nat \<Rightarrow> bytes \<Rightarrow> error option \<times> 'a hub_scheme" where
  "notify e own h handle data =
     (let h0 = log_call (Debug_Notification handle data) h
      in case get_upstream_msg e data of
           Inl err \<Rightarrow> (Some err, h0)
         | Inr msg \<Rightarrow>
             (case correlate e (log_call (Debug_Decoded msg) h0) msg of
                (Some err, h1) \<Rightarrow> (Some err, h1)
              | (None, h1) \<Rightarrow> dispatch e own (msg_handlers h1) h1 msg))"

subsection \<open>Synchronous requests\<close>

text \<open>
  \<^verbatim>\<open>Hub.send\<close> up to the write, lines 63 to 71 and 78: what the caller does
  before it waits for the reply.
\<close>

definition send_request ::
  "ext \<Rightarrow> 'a hub_scheme \<Rightarrow> downstream_msg \<Rightarrow> error option \<times> 'a hub_scheme" where
  "send_request e h msg =
     (let h0 = log_call (Debug_Send msg) h;
          msgbytes = msg_bytes e msg
      in if needs_reply msg then
           (if sync_request h0 \<noteq> None then (Some AssertionError, h0)
            else
              (let h1 = log_call (Debug_Waiting msg) (h0\<lparr>sync_request := Some msg\<rparr>)
               in (None, h1\<lparr>written := written h1 @ [(HUB_HARDWARE_HANDLE, msgbytes)]\<rparr>)))
         else (None, h0\<lparr>written := written h0 @ [(HUB_HARDWARE_HANDLE, msgbytes)]\<rparr>))"

text \<open>
  Lines 72 to 76: \<^verbatim>\<open>get\<close> takes the oldest item of the reply queue, and waits
  while there is none.
\<close>

definition send_fetch ::
  "ext \<Rightarrow> 'a hub_scheme \<Rightarrow> (error + upstream_msg option) \<times> 'a hub_scheme" where
  "send_fetch e h =
     (case sync_replies h of
        [] \<Rightarrow> (Inl Blocked, h)
      | resp # rest \<Rightarrow>
          (let h1 = log_call (Debug_Fetched resp) (h\<lparr>sync_replies := rest\<rparr>)
           in if mclass resp = MsgGenericError then (Inl (RuntimeError (message e resp)), h1)
              else (Inr (Some resp), h1)))"

text \<open>
  The caller waits in \<^verbatim>\<open>get\<close> while the connection's thread delivers the
  notifications \<open>notifs\<close>, one \<^verbatim>\<open>_notify\<close> call each; a notification that
  raises does so in that thread. The caller goes on as soon as the queue holds an
  item. With the notifications used up and the queue empty it waits for ever.
\<close>

fun wait_reply ::
  "ext \<Rightarrow> (ext \<Rightarrow> 'a hub_scheme \<Rightarrow> upstream_msg \<Rightarrow> error option \<times> 'a hub_scheme) \<Rightarrow>
   'a hub_scheme \<Rightarrow> (nat \<times> bytes) list \<Rightarrow> (error + upstream_msg option) \<times> 'a hub_scheme" where
  "wait_reply e own h [] = send_fetch e h"
| "wait_reply e own h ((handle, data) # rest) =
     (if sync_replies h \<noteq> [] then send_fetch e h
      else wait_reply e own (snd (notify e own h handle data)) rest)"

text \<open>\<^verbatim>\<open>Hub.send\<close>, lines 58 to 79, with the notifications that arrive while it waits.\<close>

definition send ::
  "ext \<Rightarrow> (ext \<Rightarrow> 'a hub_scheme \<Rightarrow> upstream_msg \<Rightarrow> error option \<times> 'a hub_scheme) \<Rightarrow>
   'a hub_scheme \<Rightarrow> downstream_msg \<Rightarrow> (nat \<times> bytes) list \<Rightarrow>
   (error + upstream_msg option) \<times> 'a hub_scheme" where
  "send e own h msg notifs =
     (case send_request e h msg of
        (Some err, h1) \<Rightarrow> (Inl err, h1)
      | (None, h1) \<Rightarrow>
          (if needs_reply msg then wait_reply e own h1 notifs else (Inr None, h1)))"

subsection \<open>MoveHub\<close>

text \<open>
  The shortcut fields of \<^verbatim>\<open>MoveHub\<close>, \<^verbatim>\<open>None\<close> or a peripheral. The fields
  \<^verbatim>\<open>info\<close> and \<^verbatim>\<open>button\<close> are assigned once in \<^verbatim>\<open>__init__\<close> and not again in
  this module; they are left out.
\<close>

record movehub = hub +
  led :: "peripheral option"
  current :: "peripheral option"
  voltage :: "peripheral option"
  motor_A :: "peripheral option"
  motor_B :: "peripheral option"
  motor_AB :: "peripheral option"
  vision_sensor :: "peripheral option"
  tilt_sensor :: "peripheral option"
  motor_external :: "peripheral option"
  port_C :: "peripheral option"
  port_D :: "peripheral option"

definition PORT_A :: nat where "PORT_A = 0x00"
definition PORT_B :: nat where "PORT_B = 0x01"
definition PORT_C :: nat where "PORT_C = 0x02"
definition PORT_D :: nat where "PORT_D = 0x03"
definition PORT_AB :: nat where "PORT_AB = 0x10"
definition PORT_LED :: nat where "PORT_LED = 0x32"
definition PORT_TILT_SENSOR :: nat where "PORT_TILT_SENSOR = 0x3A"
definition PORT_CURRENT :: nat where "PORT_CURRENT = 0x3B"
definition PORT_VOLTAGE :: nat where "PORT_VOLTAGE = 0x3C"

text \<open>Lines 253 to 270: the shortcut of a port fixed by convention.\<close>

definition bind_port :: "nat \<Rightarrow> peripheral \<Rightarrow> movehub \<Rightarrow> movehub" where
  "bind_port p dev h =
     (if p = PORT_A then h\<lparr>motor_A := Some dev\<rparr>
      else if p = PORT_B then h\<lparr>motor_B := Some dev\<rparr>
      else if p = PORT_AB then h\<lparr>motor_AB := Some dev\<rparr>
      else if p = PORT_C then h\<lparr>port_C := Some dev\<rparr>
      else if p = PORT_D then h\<lparr>port_D := Some dev\<rparr>
      else if p = PORT_LED then h\<lparr>led := Some dev\<rparr>
      else if p = PORT_TILT_SENSOR then h\<lparr>tilt_sensor := Some dev\<rparr>
      else if p = PORT_CURRENT then h\<lparr>current := Some dev\<rparr>
      else if p = PORT_VOLTAGE then h\<lparr>voltage := Some dev\<rparr>
      else h)"

text \<open>Lines 272 to 275: the shortcut chosen by the type of the peripheral.\<close>

definition bind_type :: "nat \<Rightarrow> peripheral \<Rightarrow> movehub \<Rightarrow> movehub" where
  "bind_type p dev h =
     (if pclass dev = VisionSensor then h\<lparr>vision_sensor := Some dev\<rparr>
      else if pclass dev = EncodedMotor \<and> p \<noteq> PORT_A \<and> p \<noteq> PORT_B \<and> p \<noteq> PORT_AB
        then h\<lparr>motor_external := Some dev\<rparr>
      else h)"

text \<open>
  \<^verbatim>\<open>MoveHub._handle_device_change\<close>, lines 249 to 275: the method of \<^verbatim>\<open>Hub\<close>
  runs first, and an exception it raises ends the call.
\<close>

definition movehub_handle_device_change ::
  "ext \<Rightarrow> movehub \<Rightarrow> upstream_msg \<Rightarrow> error option \<times> movehub" where
  "movehub_handle_device_change e h msg =
     (case handle_device_change e h msg of
        (Some err, h1) \<Rightarrow> (Some err, h1)
      | (None, h1) \<Rightarrow>
          (if mclass msg = MsgHubAttachedIO \<and> event msg \<noteq> EVENT_DETACHED e then
             (case lookup h1 (port msg) of
                Inl err \<Rightarrow> (Some err, h1)
              | Inr dev \<Rightarrow> (None, bind_type (port msg) dev (bind_port (port msg) dev h1)))
           else (None, h1)))"

text \<open>
  The state of a \<^verbatim>\<open>MoveHub\<close> when \<^verbatim>\<open>__init__\<close> reaches line 217, had no
  notification arrived until then.
\<close>

definition MoveHub_init :: movehub where
  "MoveHub_init =
     hub.extend Hub_init
       (movehub.fields None None None None None None None None None None None)"

text \<open>The default \<^verbatim>\<open>get_dev_set\<close> of line 222.\<close>

definition default_dev_set :: "movehub \<Rightarrow> peripheral option list" where
  "default_dev_set h =
     [motor_A h, motor_B h, motor_AB h, led h, tilt_sensor h, current h, voltage h]"

text \<open>
  The loop of \<^verbatim>\<open>MoveHub._wait_for_devices\<close>, lines 224 to 231, from the value
  \<open>num\<close> of the loop variable on. \<open>slept\<close> counts the calls of
  \<^verbatim>\<open>time.sleep(0.1)\<close>; the result holds the count. \<open>env num\<close> is what the other
  threads do to the hub while this one sleeps in pass \<open>num\<close>. A peripheral object
  is true, so \<^verbatim>\<open>all(devices)\<close> holds when no entry is \<^verbatim>\<open>None\<close>.
\<close>

function wait_loop ::
  "(movehub \<Rightarrow> peripheral option list) \<Rightarrow> (nat \<Rightarrow> movehub \<Rightarrow> movehub) \<Rightarrow>
   nat \<Rightarrow> nat \<Rightarrow> movehub \<Rightarrow> error option \<times> nat \<times> movehub" where
  "wait_loop get_dev_set env num slept h =
     (if num < 60 then
        (let devices = get_dev_set h
         in if list_all (\<lambda>d. d \<noteq> None) devices then
              (None, slept, log_call (Debug_AllPresent devices) h)
            else
              wait_loop get_dev_set env (Suc num) (Suc slept)
                (env num (log_call (Debug_WaitingDevices devices) h)))
      else (None, slept, log_call (Warning_GotOnly (get_dev_set h)) h))"
  by pat_completeness auto
termination
  by (relation "measure (\<lambda>(get_dev_set, env, num, slept, h). 60 - num)") auto

declare wait_loop.simps [simp del]

text \<open>\<^verbatim>\<open>MoveHub._wait_for_devices\<close>, lines 220 to 231.\<close>

definition wait_for_devices ::
  "(movehub \<Rightarrow> peripheral option list) option \<Rightarrow> (nat \<Rightarrow> movehub \<Rightarrow> movehub) \<Rightarrow>
   movehub \<Rightarrow> error option \<times> nat \<times> movehub" where
  "wait_for_devices get_dev_set env h =
     wait_loop (case get_dev_set of None \<Rightarrow> default_dev_set | Some f \<Rightarrow> f) env 0 0 h"

section \<open>Notions used in the statements\<close>

subsection \<open>Attachment\<close>

text \<open>The keys of the dict \<^verbatim>\<open>peripherals\<close>, in the order of the dict.\<close>

definition ports :: "'a hub_scheme \<Rightarrow> nat list" where
  "ports h = map fst (peripherals h)"

text \<open>
  An attach notification: the event is not the detach event, it is one of the two
  attach events (the assertion of line 133), and the payload holds what the handler
  reads from it: the device type at offset 0, and bytes 2 to 9 (an attached event)
  or bytes 2 and 3 (a virtual attachment).
\<close>

definition attach_notification :: "ext \<Rightarrow> upstream_msg \<Rightarrow> bool" where
  "attach_notification e msg \<longleftrightarrow>
     event msg \<noteq> EVENT_DETACHED e \<and>
     (event msg = EVENT_ATTACHED e \<or> event msg = EVENT_ATTACHED_VIRTUAL e) \<and>
     ushort e (payload msg) 0 \<noteq> None \<and>
     (if event msg = EVENT_ATTACHED e
      then list_all (\<lambda>x. usbyte e (payload msg) x \<noteq> None) [2..<10]
      else usbyte e (payload msg) 2 \<noteq> None \<and> usbyte e (payload msg) 3 \<noteq> None)"

text \<open>The class the registry gives for the device type of a message, with the fallback.\<close>

definition device_class :: "ext \<Rightarrow> upstream_msg \<Rightarrow> periph_class" where
  "device_class e msg =
     (case ushort e (payload msg) 0 of
        None \<Rightarrow> Peripheral
      | Some dev_type \<Rightarrow>
          (case PERIPHERAL_TYPES e dev_type of None \<Rightarrow> Peripheral | Some c \<Rightarrow> c))"

text \<open>The pair of ports a virtual attachment names.\<close>

definition virtual_pair :: "ext \<Rightarrow> upstream_msg \<Rightarrow> (nat \<times> nat) option" where
  "virtual_pair e msg =
     (if event msg = EVENT_ATTACHED e then None
      else (case (usbyte e (payload msg) 2, usbyte e (payload msg) 3) of
              (Some a, Some b) \<Rightarrow> Some (a, b)
            | _ \<Rightarrow> None))"

text \<open>
  What holds of the dict in every state a running hub can be in: a key occurs
  once, an object stands at one key only, and every object in the dict was
  constructed before the next one will be.
\<close>

definition well_formed :: "'a hub_scheme \<Rightarrow> bool" where
  "well_formed h \<longleftrightarrow>
     distinct (ports h) \<and>
     distinct (map (\<lambda>x. obj_id (snd x)) (peripherals h)) \<and>
     list_all (\<lambda>x. obj_id (snd x) < next_id h) (peripherals h)"

text \<open>
  Replaying a sequence of notifications through the attachment handler: the
  handler is called for one message after the other, and an exception ends the
  replay.
\<close>

fun replay ::
  "ext \<Rightarrow> 'a hub_scheme \<Rightarrow> upstream_msg list \<Rightarrow> error option \<times> 'a hub_scheme" where
  "replay e h [] = (None, h)"
| "replay e h (msg # rest) =
     (case handle_device_change e h msg of
        (Some err, h') \<Rightarrow> (Some err, h')
      | (None, h') \<Rightarrow> replay e h' rest)"

text \<open>
  A sequence of attach and detach notifications in which every detach names a port
  that is present when it arrives; \<open>present\<close> is the set of ports present at the
  start.
\<close>

fun valid_events :: "ext \<Rightarrow> nat set \<Rightarrow> upstream_msg list \<Rightarrow> bool" where
  "valid_events e present [] = True"
| "valid_events e present (msg # rest) =
     (if event msg = EVENT_DETACHED e
      then port msg \<in> present \<and> valid_events e (present - {port msg}) rest
      else attach_notification e msg \<and> valid_events e (insert (port msg) present) rest)"

text \<open>The last event of the sequence that names port \<open>p\<close> is an attach.\<close>

definition last_event_attach :: "ext \<Rightarrow> upstream_msg list \<Rightarrow> nat \<Rightarrow> bool" where
  "last_event_attach e evs p =
     (let named = filter (\<lambda>msg. port msg = p) evs
      in named \<noteq> [] \<and> event (last named) \<noteq> EVENT_DETACHED e)"

subsection \<open>Synchronous requests\<close>

text \<open>
  Two states agree on the pending request and on the reply queue.
\<close>

definition sync_same :: "'a hub_scheme \<Rightarrow> 'a hub_scheme \<Rightarrow> bool" where
  "sync_same h h' \<longleftrightarrow> sync_request h' = sync_request h \<and> sync_replies h' = sync_replies h"

text \<open>
  What one step may do to the pending request and the reply queue when it handles
  the message \<open>msg\<close>: nothing; or, with a request pending and the queue empty, clear
  the request and put \<open>msg\<close>; or, with a request pending and the queue full, clear
  the request and wait in \<^verbatim>\<open>put\<close>.
\<close>

definition sync_outcome ::
  "upstream_msg \<Rightarrow> 'a hub_scheme \<Rightarrow> error option \<times> 'a hub_scheme \<Rightarrow> bool" where
  "sync_outcome msg h r \<longleftrightarrow>
     sync_same h (snd r) \<or>
     (sync_request h \<noteq> None \<and> sync_replies h = [] \<and>
      sync_request (snd r) = None \<and> sync_replies (snd r) = [msg]) \<or>
     (sync_request h \<noteq> None \<and> sync_replies h \<noteq> [] \<and> fst r = Some Blocked \<and>
      sync_request (snd r) = None \<and> sync_replies (snd r) = sync_replies h)"

text \<open>
  The two ways a wait for the reply to \<open>req\<close> ends: it never ends (the request
  is still pending and the queue empty), or one of the notifications was put into
  the queue, the request was cleared, and the caller took the message, which
  either raises (a generic error) or is returned.
\<close>

definition reply_result ::
  "ext \<Rightarrow> (nat \<times> bytes) list \<Rightarrow> downstream_msg \<Rightarrow>
   (error + upstream_msg option) \<times> 'a hub_scheme \<Rightarrow> bool" where
  "reply_result e notifs req r \<longleftrightarrow>
     (fst r = Inl Blocked \<and> sync_request (snd r) = Some req \<and> sync_replies (snd r) = []) \<or>
     (\<exists>resp. (\<exists>handle data. (handle, data) \<in> set notifs \<and>
                            get_upstream_msg e data = Inr resp) \<and>
        fst r = (if mclass resp = MsgGenericError then Inl (RuntimeError (message e resp))
                 else Inr (Some resp)) \<and>
        sync_request (snd r) = None \<and> sync_replies (snd r) = [])"



text \<open>
  The steps of a hub that serves any number of callers: a caller runs \<^verbatim>\<open>send\<close>
  up to the write, the connection delivers a notification, a waiting caller takes
  an item from the reply queue, a callback is registered.
\<close>

datatype hub_event =
    Call_send downstream_msg
  | Deliver nat bytes
  | Take_reply
  | Register msg_class nat

definition hub_step :: "ext \<Rightarrow> hub \<Rightarrow> hub_event \<Rightarrow> hub" where
  "hub_step e h ev =
     (case ev of
        Call_send msg \<Rightarrow> snd (send_request e h msg)
      | Deliver handle data \<Rightarrow> snd (notify e handle_device_change h handle data)
      | Take_reply \<Rightarrow> snd (send_fetch e h)
      | Register c k \<Rightarrow> add_message_handler c (External k) h)"

fun hub_run :: "ext \<Rightarrow> hub \<Rightarrow> hub_event list \<Rightarrow> hub" where
  "hub_run e h [] = h"
| "hub_run e h (ev # evs) = hub_run e (hub_step e h ev) evs"

text \<open>
  A count kept beside the run, not a field of the hub: \<open>recorded\<close> is 1 for a
  step that records a pending request (line 68), \<open>cleared\<close> is 1 for a step
  that clears one (lines 91 and 113), and \<open>pending_requests\<close> adds the one and
  subtracts the other along a run. Were a request ever recorded over a pending
  one, the count would reach 2.
\<close>

definition recorded :: "ext \<Rightarrow> hub \<Rightarrow> hub_event \<Rightarrow> nat" where
  "recorded e h ev =
     (case ev of
        Call_send msg \<Rightarrow> if needs_reply msg \<and> fst (send_request e h msg) = None then 1 else 0
      | _ \<Rightarrow> 0)"

definition cleared :: "ext \<Rightarrow> hub \<Rightarrow> hub_event \<Rightarrow> nat" where
  "cleared e h ev =
     (if sync_request h \<noteq> None \<and> sync_request (hub_step e h ev) = None then 1 else 0)"

fun pending_requests :: "ext \<Rightarrow> hub \<Rightarrow> nat \<Rightarrow> hub_event list \<Rightarrow> nat" where
  "pending_requests e h n [] = n"
| "pending_requests e h n (ev # evs) =
     pending_requests e (hub_step e h ev) (n + recorded e h ev - cleared e h ev) evs"

subsection \<open>The shortcut fields and the waiting loop\<close>

text \<open>
  The eleven shortcut fields of a \<^verbatim>\<open>MoveHub\<close>.
\<close>

definition shortcuts :: "movehub \<Rightarrow> peripheral option list" where
  "shortcuts h =
     [motor_A h, motor_B h, motor_AB h, led h, tilt_sensor h, current h, voltage h,
      vision_sensor h, motor_external h, port_C h, port_D h]"

text \<open>
  The hub at the start of pass \<open>num\<close> of the waiting loop, had no earlier pass
  found all devices: each pass logs, sleeps, and meanwhile the other threads
  change the hub.
\<close>

primrec pass_state ::
  "(movehub \<Rightarrow> peripheral option list) \<Rightarrow> (nat \<Rightarrow> movehub \<Rightarrow> movehub) \<Rightarrow>
   nat \<Rightarrow> movehub \<Rightarrow> movehub" where
  "pass_state get_dev_set env 0 h = h"
| "pass_state get_dev_set env (Suc num) h =
     env num (log_call (Debug_WaitingDevices (get_dev_set (pass_state get_dev_set env num h)))
                (pass_state get_dev_set env num h))"

text \<open>
  \<^verbatim>\<open>all(devices)\<close>, and the \<^verbatim>\<open>get_dev_set\<close> in force.
\<close>

definition all_present :: "peripheral option list \<Rightarrow> bool" where
  "all_present devices = list_all (\<lambda>d. d \<noteq> None) devices"

definition dev_set_of ::
  "(movehub \<Rightarrow> peripheral option list) option \<Rightarrow> movehub \<Rightarrow> peripheral option list" where
  "dev_set_of get_dev_set = (case get_dev_set of None \<Rightarrow> default_dev_set | Some f \<Rightarrow> f)"

subsection \<open>Sample values of the parameters\<close>

text \<open>
  One value of \<open>ext\<close> on which the model is run: bytes read as unsigned numbers
  (two of them little-endian), frames whose byte 2 is the type, byte 3 the port and
  byte 4 the event, and a request of type 1 that takes any property message as its
  reply and no other message.
\<close>

definition sample_usbyte :: "bytes \<Rightarrow> nat \<Rightarrow> nat option" where
  "sample_usbyte seq i = (if i < length seq then Some (unat (seq ! i)) else None)"

definition sample_ushort :: "bytes \<Rightarrow> nat \<Rightarrow> nat option" where
  "sample_ushort seq i =
     (if i + 1 < length seq then Some (unat (seq ! i) + 256 * unat (seq ! (i + 1))) else None)"

definition sample_decode :: "msg_class \<Rightarrow> bytes \<Rightarrow> upstream_msg option" where
  "sample_decode c data =
     (if length data < 5 then None
      else Some \<lparr>mclass = c, port = unat (data ! 3), event = unat (data ! 4),
                 payload = drop 5 data, action = unat (data ! 3)\<rparr>)"

definition sample_ext :: ext where
  "sample_ext =
     \<lparr>EVENT_DETACHED = 0, EVENT_ATTACHED = 1, EVENT_ATTACHED_VIRTUAL = 2,
      DEV_MOTOR = 0x01, DEV_MOTOR_EXTERNAL_TACHO = 0x26, DEV_MOTOR_INTERNAL_TACHO = 0x27,
      DEV_VISION_SENSOR = 0x25, DEV_RGB_LIGHT = 0x17, DEV_TILT_EXTERNAL = 0x22,
      DEV_TILT_INTERNAL = 0x28, DEV_CURRENT = 0x15, DEV_VOLTAGE = 0x14,
      UPSTREAM_DISCONNECT = 0x30, UPSTREAM_SHUTDOWN = 0x31,
      usbyte = sample_usbyte, ushort = sample_ushort,
      msg_bytes = dbody,
      is_reply = (\<lambda>req msg. mclass msg = MsgHubProperties \<and> dtype req = 0x01),
      message = (\<lambda>msg. ''Command caused error''),
      UPSTREAM_MSGS =
        [(0x01, sample_decode MsgHubProperties),
         (0x02, sample_decode MsgHubAction),
         (0x04, sample_decode MsgHubAttachedIO),
         (0x05, sample_decode MsgGenericError),
         (0x45, sample_decode MsgPortValueSingle)]\<rparr>"

text \<open>An attached event for port \<open>p\<close> with device type \<open>t\<close>, and a detached event.\<close>

definition attach_msg :: "nat \<Rightarrow> 8 word \<Rightarrow> upstream_msg" where
  "attach_msg p t =
     \<lparr>mclass = MsgHubAttachedIO, port = p, event = 1,
      payload = [t, 0, 0, 0, 0, 0x10, 0, 0, 0, 0x10], action = 0\<rparr>"

definition detach_msg :: "nat \<Rightarrow> upstream_msg" where
  "detach_msg p = \<lparr>mclass = MsgHubAttachedIO, port = p, event = 0, payload = [], action = 0\<rparr>"

text \<open>The hub after a motor was attached to port 0, and a sequence of four events.\<close>

definition hub_with_motor :: hub where
  "hub_with_motor = snd (handle_device_change sample_ext Hub_init (attach_msg 0 0x27))"

definition sample_events :: "upstream_msg list" where
  "sample_events = [attach_msg 0 0x27, attach_msg 1 0x27, detach_msg 0, attach_msg 0x32 0x17]"

text \<open>
  Two requests that need a reply (a port output command, which the sample
  \<open>is_reply\<close> matches with no message, and a property request), the frames of a
  generic error, of a property update and of an attached motor, the messages they
  decode to, and hubs with a pending request.
\<close>

definition port_request :: downstream_msg where
  "port_request = \<lparr>needs_reply = True, dtype = 0x81, dbody = [0x08, 0x00, 0x81, 0x00, 0x11, 0x51, 0x00, 0x64]\<rparr>"

definition property_request :: downstream_msg where
  "property_request = \<lparr>needs_reply = True, dtype = 0x01, dbody = [0x05, 0x00, 0x01, 0x06, 0x05]\<rparr>"

definition error_frame :: bytes where
  "error_frame = [0x05, 0x00, 0x05, 0x81, 0x05]"

definition error_msg :: upstream_msg where
  "error_msg = \<lparr>mclass = MsgGenericError, port = 0x81, event = 5, payload = [], action = 0x81\<rparr>"

definition property_frame :: bytes where
  "property_frame = [0x06, 0x00, 0x01, 0x06, 0x06, 0x64]"

definition property_msg :: upstream_msg where
  "property_msg = \<lparr>mclass = MsgHubProperties, port = 6, event = 6, payload = [0x64], action = 6\<rparr>"



definition pending_hub :: "downstream_msg \<Rightarrow> hub" where
  "pending_hub req = Hub_init\<lparr>sync_request := Some req\<rparr>"


text \<open>
  The \<^verbatim>\<open>MoveHub\<close> after a motor was attached to port A; and an environment in
  which the seven built-in devices are attached while the hub sleeps in pass 0.
\<close>

definition movehub_with_motor :: movehub where
  "movehub_with_motor =
     snd (movehub_handle_device_change sample_ext MoveHub_init (attach_msg 0 0x27))"

definition builtin_attach :: "movehub \<Rightarrow> movehub" where
  "builtin_attach h =
     fold (\<lambda>msg h. snd (movehub_handle_device_change sample_ext h msg))
       [attach_msg 0x00 0x27, attach_msg 0x01 0x27, attach_msg 0x10 0x27, attach_msg 0x32 0x17,
        attach_msg 0x3A 0x28, attach_msg 0x3B 0x15, attach_msg 0x3C 0x14] h"

definition sample_env :: "nat \<Rightarrow> movehub \<Rightarrow> movehub" where
  "sample_env num h = (if num = 0 then builtin_attach h else h)"

section \<open>Properties\<close>

subsection \<open>The attachment handler, case by case\<close>

lemmas handler_defs =
  handle_device_change_def attach_details_def install_def lookup_def log_call_def
  new_peripheral_def PERIPHERAL_TYPES_def

lemmas sample_defs =
  sample_ext_def sample_usbyte_def sample_ushort_def sample_decode_def attach_msg_def
  detach_msg_def Hub_init_def

lemma attach_details_ok:
  assumes "attach_notification e msg" and "lookup h (port msg) = Inr dev"
  shows "attach_details e h msg =
     (None, if event msg = EVENT_ATTACHED e then h
            else h\<lparr>peripherals :=
                     AList.update (port msg) (dev\<lparr>virtual_ports := virtual_pair e msg\<rparr>)
                       (peripherals h)\<rparr>)"
proof (cases "event msg = EVENT_ATTACHED e")
  case True
  with assms(1) show ?thesis
    by (simp add: attach_notification_def attach_details_def)
next
  case False
  with assms(1) have ev: "event msg = EVENT_ATTACHED_VIRTUAL e"
    and "usbyte e (payload msg) 2 \<noteq> None" and "usbyte e (payload msg) 3 \<noteq> None"
    by (simp_all add: attach_notification_def)
  then obtain a b where "usbyte e (payload msg) 2 = Some a" and "usbyte e (payload msg) 3 = Some b"
    by auto
  with False ev assms(2) show ?thesis
    by (simp add: attach_details_def virtual_pair_def)
qed

text \<open>
  What an attach notification does to the hub: the new peripheral stands at the
  port, the identity counter moves on, and the log gains the warning (for a device
  type outside the registry) and the info line.
\<close>

lemma handle_attach:
  assumes "attach_notification e msg" and "ushort e (payload msg) 0 = Some dev_type"
  shows "handle_device_change e h msg =
     (None, h\<lparr>peripherals :=
                AList.update (port msg)
                  ((new_peripheral (device_class e msg) (port msg) (next_id h))
                     \<lparr>virtual_ports := virtual_pair e msg\<rparr>) (peripherals h),
              next_id := Suc (next_id h),
              logged := logged h @
                (case PERIPHERAL_TYPES e dev_type of
                   None \<Rightarrow> [Warning_NoClass dev_type (port msg)] | Some c \<Rightarrow> []) @
                [Info_Attached (new_peripheral (device_class e msg) (port msg) (next_id h))]\<rparr>)"
proof -
  let ?dev = "new_peripheral (device_class e msg) (port msg) (next_id h)"
  define h1 where "h1 = (case PERIPHERAL_TYPES e dev_type of
                          Some c \<Rightarrow> install c (port msg) h
                        | None \<Rightarrow>
                            install Peripheral (port msg)
                              (log_call (Warning_NoClass dev_type (port msg)) h))"
  have h1: "h1 = h\<lparr>peripherals := AList.update (port msg) ?dev (peripherals h),
                   next_id := Suc (next_id h),
                   logged := logged h @
                     (case PERIPHERAL_TYPES e dev_type of
                        None \<Rightarrow> [Warning_NoClass dev_type (port msg)] | Some c \<Rightarrow> [])\<rparr>"
    using assms(2)
    by (simp add: h1_def install_def log_call_def device_class_def split: option.splits)
  have look: "lookup h1 (port msg) = Inr ?dev"
    by (simp add: h1 lookup_def update_conv')
  have look': "lookup (log_call (Info_Attached ?dev) h1) (port msg) = Inr ?dev"
    using look by (simp add: lookup_def log_call_def)
  have nd: "event msg \<noteq> EVENT_DETACHED e"
    and ev: "\<not> (event msg \<noteq> EVENT_ATTACHED e \<and> event msg \<noteq> EVENT_ATTACHED_VIRTUAL e)"
    using assms(1) by (auto simp: attach_notification_def)
  have "handle_device_change e h msg = attach_details e (log_call (Info_Attached ?dev) h1) msg"
    using nd ev assms(2) look
    by (cases "event msg = EVENT_ATTACHED e")
      (simp_all add: handle_device_change_def h1_def [symmetric] Let_def)
  also have "\<dots> = (None, if event msg = EVENT_ATTACHED e then log_call (Info_Attached ?dev) h1
            else (log_call (Info_Attached ?dev) h1)\<lparr>peripherals :=
                     AList.update (port msg) (?dev\<lparr>virtual_ports := virtual_pair e msg\<rparr>)
                       (peripherals (log_call (Info_Attached ?dev) h1))\<rparr>)"
    by (rule attach_details_ok [OF assms(1) look'])
  finally show ?thesis
    by (cases "event msg = EVENT_ATTACHED e")
      (simp_all add: h1 log_call_def new_peripheral_def virtual_pair_def)
qed

lemma handle_detach:
  assumes "event msg = EVENT_DETACHED e"
  shows "handle_device_change e h msg =
     (case map_of (peripherals h) (port msg) of
        None \<Rightarrow> (Some (KeyError (port msg)), h)
      | Some dev \<Rightarrow> (None, h\<lparr>logged := logged h @ [Debug_Detaching dev],
                              peripherals := AList.delete (port msg) (peripherals h)\<rparr>))"
  using assms
  by (auto simp: handle_device_change_def lookup_def log_call_def split: option.splits)

lemma sample_run_attach:
  "handle_device_change sample_ext Hub_init (attach_msg 0 0x27) =
     (None, Hub_init\<lparr>peripherals := [(0, new_peripheral EncodedMotor 0 0)], next_id := 1,
        logged := [Info_Attached (new_peripheral EncodedMotor 0 0)]\<rparr>)"
  by (simp add: handler_defs sample_defs)

subsection \<open>The sample run\<close>

lemma sample_attach: "attach_notification sample_ext (attach_msg p t)"
  by (simp add: attach_notification_def sample_defs)

lemma sample_messages:
  "port (attach_msg p t) = p" "port (detach_msg p) = p"
  "event (detach_msg p) = EVENT_DETACHED sample_ext"
  "event (attach_msg p t) \<noteq> EVENT_DETACHED sample_ext"
  "mclass (attach_msg p t) = MsgHubAttachedIO" "mclass (detach_msg p) = MsgHubAttachedIO"
  "virtual_pair sample_ext (attach_msg p t) = None"
  "ushort sample_ext (payload (attach_msg p t)) 0 = Some (unat t)"
  by (simp_all add: sample_defs virtual_pair_def)

lemma sample_classes:
  "device_class sample_ext (attach_msg p 0x27) = EncodedMotor"
  "device_class sample_ext (attach_msg p 0x25) = VisionSensor"
  "device_class sample_ext (attach_msg p 0x17) = LEDRGB"
  "device_class sample_ext (attach_msg p 0x99) = Peripheral"
  "PERIPHERAL_TYPES sample_ext (unat (0x27 :: 8 word)) = Some EncodedMotor"
  "PERIPHERAL_TYPES sample_ext (unat (0x25 :: 8 word)) = Some VisionSensor"
  "PERIPHERAL_TYPES sample_ext (unat (0x17 :: 8 word)) = Some LEDRGB"
  "PERIPHERAL_TYPES sample_ext (unat (0x99 :: 8 word)) = None"
  by (simp_all add: device_class_def PERIPHERAL_TYPES_def sample_defs)

lemmas sample_attach_run =
  handle_attach [OF sample_attach sample_messages(8), unfolded sample_messages]

lemmas sample_detach_run =
  handle_detach [OF sample_messages(3), unfolded sample_messages]

lemma hub_with_motor:
  "hub_with_motor = Hub_init\<lparr>peripherals := [(0, new_peripheral EncodedMotor 0 0)], next_id := 1,
        logged := [Info_Attached (new_peripheral EncodedMotor 0 0)]\<rparr>"
  by (simp add: hub_with_motor_def sample_run_attach)

subsection \<open>Detaching\<close>

text \<open>
  C5. A detach notification for a port that is not a key of \<^verbatim>\<open>peripherals\<close>
  raises \<^verbatim>\<open>KeyError\<close> and leaves the hub as it was: nothing is removed, added or
  logged in its place. A detach notification for a port that is a key returns
  normally, and afterwards the port is no key any more while every other port has
  the peripheral it had.
\<close>

theorem detach_untracked_raises_tracked_removes:
  assumes "event msg = EVENT_DETACHED e"
  shows "(port msg \<notin> set (ports h) \<longrightarrow>
            handle_device_change e h msg = (Some (KeyError (port msg)), h)) \<and>
         (port msg \<in> set (ports h) \<longrightarrow>
            fst (handle_device_change e h msg) = None \<and>
            set (ports (snd (handle_device_change e h msg))) = set (ports h) - {port msg} \<and>
            map_of (peripherals (snd (handle_device_change e h msg))) =
              (map_of (peripherals h))(port msg := None))"
proof (cases "map_of (peripherals h) (port msg)")
  case None
  then have "port msg \<notin> set (ports h)"
    by (simp add: ports_def map_of_eq_None_iff)
  with None assms show ?thesis
    by (simp add: handle_detach)
next
  case (Some dev)
  then have "port msg \<in> set (ports h)"
    by (auto simp: ports_def dest: map_of_SomeD intro: rev_image_eqI)
  with Some assms show ?thesis
    by (simp add: handle_detach ports_def delete_keys delete_conv')
qed

theorem detach_untracked_raises_tracked_removes_witness:
  "event (detach_msg 0) = EVENT_DETACHED sample_ext \<and>
   0 \<notin> set (ports Hub_init) \<and>
   handle_device_change sample_ext Hub_init (detach_msg 0) = (Some (KeyError 0), Hub_init) \<and>
   0 \<in> set (ports (snd (handle_device_change sample_ext Hub_init (attach_msg 0 0x27)))) \<and>
   fst (handle_device_change sample_ext
          (snd (handle_device_change sample_ext Hub_init (attach_msg 0 0x27))) (detach_msg 0)) = None \<and>
   set (ports (snd (handle_device_change sample_ext
          (snd (handle_device_change sample_ext Hub_init (attach_msg 0 0x27))) (detach_msg 0)))) = {}"
proof -
  have ev: "event (detach_msg 0) = EVENT_DETACHED sample_ext"
    by (simp add: detach_msg_def sample_ext_def)
  have p: "port (detach_msg 0) = 0"
    by (simp add: detach_msg_def)
  have a: "ports (snd (handle_device_change sample_ext Hub_init (attach_msg 0 0x27))) = [0]"
    by (simp add: sample_run_attach ports_def)
  have i: "ports Hub_init = []"
    by (simp add: ports_def Hub_init_def)
  show ?thesis
    using detach_untracked_raises_tracked_removes [OF ev, of Hub_init]
      detach_untracked_raises_tracked_removes [OF ev,
        of "snd (handle_device_change sample_ext Hub_init (attach_msg 0 0x27))"]
    by (simp add: ev p a i)
qed

subsection \<open>Attaching\<close>

lemma set_update_subset: "set (AList.update k v al) \<subseteq> insert (k, v) (set al)"
  by (induction al) auto

lemma set_update_distinct:
  "distinct (map fst al) \<Longrightarrow>
   set (AList.update k v al) = insert (k, v) {x \<in> set al. fst x \<noteq> k}"
  by (induction al) (auto simp: image_iff)

lemma distinct_map_update:
  assumes "distinct (map f al)" and "f (k, v) \<notin> f ` set al"
  shows "distinct (map f (AList.update k v al))"
  using assms
proof (induction al)
  case Nil
  then show ?case by simp
next
  case (Cons x al)
  have sub: "set (AList.update k v al) \<subseteq> insert (k, v) (set al)"
    by (rule set_update_subset)
  from Cons show ?case
    using sub by (auto simp: image_iff)
qed

lemma attach_keeps_well_formed:
  assumes "attach_notification e msg" and "well_formed h"
  shows "well_formed (snd (handle_device_change e h msg))"
proof -
  from assms(1) obtain dev_type where dt: "ushort e (payload msg) 0 = Some dev_type"
    by (auto simp: attach_notification_def)
  let ?new = "(new_peripheral (device_class e msg) (port msg) (next_id h))
                \<lparr>virtual_ports := virtual_pair e msg\<rparr>"
  have id: "obj_id ?new = next_id h"
    by (simp add: new_peripheral_def)
  have old: "\<forall>x \<in> set (peripherals h). obj_id (snd x) < next_id h"
    using assms(2) by (simp add: well_formed_def list_all_iff)
  then have fresh: "(\<lambda>x. obj_id (snd x)) (port msg, ?new) \<notin> (\<lambda>x. obj_id (snd x)) ` set (peripherals h)"
    using id by auto
  have d1: "distinct (map fst (AList.update (port msg) ?new (peripherals h)))"
    using assms(2) by (simp add: well_formed_def ports_def distinct_update)
  have d2: "distinct (map (\<lambda>x. obj_id (snd x)) (AList.update (port msg) ?new (peripherals h)))"
    using assms(2) fresh by (intro distinct_map_update) (simp_all add: well_formed_def)
  have d3: "\<forall>x \<in> set (AList.update (port msg) ?new (peripherals h)). obj_id (snd x) < Suc (next_id h)"
    using set_update_subset [of "port msg" ?new "peripherals h"] old id by fastforce
  show ?thesis
    using d1 d2 d3
    by (simp add: handle_attach [OF assms(1) dt] well_formed_def ports_def list_all_iff)
qed

lemma detach_keeps_well_formed:
  assumes "event msg = EVENT_DETACHED e" and "well_formed h"
  shows "well_formed (snd (handle_device_change e h msg))"
  using assms
  by (auto simp: handle_detach well_formed_def ports_def delete_keys distinct_removeAll
      AList.delete_eq distinct_map_filter list_all_iff split: option.splits)

lemma well_formed_init: "well_formed Hub_init"
  by (simp add: well_formed_def Hub_init_def ports_def)


lemma ports_after_attach:
  assumes "attach_notification e msg"
  shows "set (ports (snd (handle_device_change e h msg))) = insert (port msg) (set (ports h))"
    and "q \<noteq> port msg \<Longrightarrow>
         map_of (peripherals (snd (handle_device_change e h msg))) q = map_of (peripherals h) q"
    and "distinct (ports h) \<Longrightarrow> distinct (ports (snd (handle_device_change e h msg)))"
    and "fst (handle_device_change e h msg) = None"
proof -
  from assms obtain dev_type where dt: "ushort e (payload msg) 0 = Some dev_type"
    by (auto simp: attach_notification_def)
  note run = handle_attach [OF assms dt]
  show "set (ports (snd (handle_device_change e h msg))) = insert (port msg) (set (ports h))"
    using dom_update [of "port msg" _ "peripherals h"] by (simp add: run ports_def)
  show "q \<noteq> port msg \<Longrightarrow>
         map_of (peripherals (snd (handle_device_change e h msg))) q = map_of (peripherals h) q"
    by (simp add: run update_conv')
  show "distinct (ports h) \<Longrightarrow> distinct (ports (snd (handle_device_change e h msg)))"
    by (simp add: run ports_def distinct_update)
  show "fst (handle_device_change e h msg) = None"
    by (simp add: run)
qed

text \<open>
  C6. An attach notification never makes the handler raise, whatever its device
  type. For a device type outside \<^verbatim>\<open>PERIPHERAL_TYPES\<close> the handler installs a
  peripheral of the generic class \<^verbatim>\<open>Peripheral\<close>, bound to the port, and logs the
  warning followed by the info line; for a device type in the registry it installs
  the class the registry maps it to and logs the info line only. In both cases the
  port is a key afterwards and the other keys are as before.
\<close>

theorem unknown_type_installs_fallback:
  assumes "attach_notification e msg" and "ushort e (payload msg) 0 = Some dev_type"
  shows "fst (handle_device_change e h msg) = None \<and>
         set (ports (snd (handle_device_change e h msg))) = insert (port msg) (set (ports h)) \<and>
         (PERIPHERAL_TYPES e dev_type = None \<longrightarrow>
            lookup (snd (handle_device_change e h msg)) (port msg) =
              Inr ((new_peripheral Peripheral (port msg) (next_id h))
                     \<lparr>virtual_ports := virtual_pair e msg\<rparr>) \<and>
            logged (snd (handle_device_change e h msg)) =
              logged h @ [Warning_NoClass dev_type (port msg),
                          Info_Attached (new_peripheral Peripheral (port msg) (next_id h))]) \<and>
         (\<forall>c. PERIPHERAL_TYPES e dev_type = Some c \<longrightarrow>
            lookup (snd (handle_device_change e h msg)) (port msg) =
              Inr ((new_peripheral c (port msg) (next_id h))
                     \<lparr>virtual_ports := virtual_pair e msg\<rparr>) \<and>
            logged (snd (handle_device_change e h msg)) =
              logged h @ [Info_Attached (new_peripheral c (port msg) (next_id h))])"
proof -
  note run = handle_attach [OF assms]
  have "set (ports (snd (handle_device_change e h msg))) = insert (port msg) (set (ports h))"
    by (rule ports_after_attach(1) [OF assms(1)])
  moreover have "fst (handle_device_change e h msg) = None"
    by (simp add: run)
  moreover have "PERIPHERAL_TYPES e dev_type = None \<Longrightarrow> device_class e msg = Peripheral"
    and "\<And>c. PERIPHERAL_TYPES e dev_type = Some c \<Longrightarrow> device_class e msg = c"
    using assms(2) by (simp_all add: device_class_def)
  ultimately show ?thesis
    by (simp add: run lookup_def update_conv')
qed

theorem unknown_type_installs_fallback_witness:
  "attach_notification sample_ext (attach_msg 5 0x99) \<and>
   ushort sample_ext (payload (attach_msg 5 0x99)) 0 = Some 0x99 \<and>
   PERIPHERAL_TYPES sample_ext 0x99 = None \<and>
   fst (handle_device_change sample_ext Hub_init (attach_msg 5 0x99)) = None \<and>
   lookup (snd (handle_device_change sample_ext Hub_init (attach_msg 5 0x99))) 5 =
     Inr (new_peripheral Peripheral 5 0) \<and>
   logged (snd (handle_device_change sample_ext Hub_init (attach_msg 5 0x99))) =
     [Warning_NoClass 0x99 5, Info_Attached (new_peripheral Peripheral 5 0)] \<and>
   attach_notification sample_ext (attach_msg 0 0x27) \<and>
   ushort sample_ext (payload (attach_msg 0 0x27)) 0 = Some 0x27 \<and>
   PERIPHERAL_TYPES sample_ext 0x27 = Some EncodedMotor \<and>
   lookup (snd (handle_device_change sample_ext Hub_init (attach_msg 0 0x27))) 0 =
     Inr (new_peripheral EncodedMotor 0 0) \<and>
   logged (snd (handle_device_change sample_ext Hub_init (attach_msg 0 0x27))) =
     [Info_Attached (new_peripheral EncodedMotor 0 0)]"
proof -
  have a1: "attach_notification sample_ext (attach_msg 5 0x99)"
    and a2: "attach_notification sample_ext (attach_msg 0 0x27)"
    by (simp_all add: attach_notification_def sample_defs)
  have u1: "ushort sample_ext (payload (attach_msg 5 0x99)) 0 = Some 0x99"
    and u2: "ushort sample_ext (payload (attach_msg 0 0x27)) 0 = Some 0x27"
    by (simp_all add: sample_defs)
  have t1: "PERIPHERAL_TYPES sample_ext 0x99 = None"
    and t2: "PERIPHERAL_TYPES sample_ext 0x27 = Some EncodedMotor"
    by (simp_all add: PERIPHERAL_TYPES_def sample_ext_def)
  have v: "virtual_pair sample_ext (attach_msg 5 0x99) = None"
    "virtual_pair sample_ext (attach_msg 0 0x27) = None"
    by (simp_all add: virtual_pair_def sample_defs)
  have p: "port (attach_msg 5 0x99) = 5" "port (attach_msg 0 0x27) = 0"
    by (simp_all add: attach_msg_def)
  have i: "next_id Hub_init = 0" "logged Hub_init = []"
    by (simp_all add: Hub_init_def)
  show ?thesis
    using unknown_type_installs_fallback [OF a1 u1, of Hub_init]
      unknown_type_installs_fallback [OF a2 u2, of Hub_init]
    by (simp add: a1 a2 u1 u2 t1 t2 v p i new_peripheral_def)
qed

text \<open>
  C8. An attach notification for a port that is already a key returns normally
  and leaves the keys as they were; the port now holds a peripheral constructed by
  this call (its identity is the one the next constructor call was to get, and
  differs from that of the peripheral that stood there), and no entry of the dict
  is the previous peripheral any more.
\<close>

theorem attach_on_present_port_replaces:
  assumes "attach_notification e msg" and "well_formed h"
    and "map_of (peripherals h) (port msg) = Some old"
  shows "fst (handle_device_change e h msg) = None \<and>
         ports (snd (handle_device_change e h msg)) = ports h \<and>
         (\<exists>new. map_of (peripherals (snd (handle_device_change e h msg))) (port msg) = Some new \<and>
                obj_id new = next_id h \<and> obj_id new \<noteq> obj_id old \<and>
                pclass new = device_class e msg \<and> periph_port new = port msg) \<and>
         (\<forall>x \<in> set (peripherals (snd (handle_device_change e h msg))).
            obj_id (snd x) \<noteq> obj_id old) \<and>
         well_formed (snd (handle_device_change e h msg))"
proof -
  from assms(1) obtain dev_type where dt: "ushort e (payload msg) 0 = Some dev_type"
    by (auto simp: attach_notification_def)
  note run = handle_attach [OF assms(1) dt]
  let ?new = "(new_peripheral (device_class e msg) (port msg) (next_id h))
                \<lparr>virtual_ports := virtual_pair e msg\<rparr>"
  have mem: "(port msg, old) \<in> set (peripherals h)"
    using assms(3) by (rule map_of_SomeD)
  then have key: "port msg \<in> fst ` set (peripherals h)"
    by (rule rev_image_eqI) simp
  have lt: "obj_id old < next_id h"
    using assms(2) mem by (auto simp: well_formed_def list_all_iff)
  have others: "obj_id (snd x) \<noteq> obj_id old"
    if "x \<in> set (peripherals h)" and "fst x \<noteq> port msg" for x
  proof
    assume eq: "obj_id (snd x) = obj_id old"
    have "\<forall>a \<in> set (peripherals h). \<forall>b \<in> set (peripherals h).
            obj_id (snd a) = obj_id (snd b) \<longrightarrow> a = b"
      using assms(2) by (simp add: well_formed_def distinct_map inj_on_def)
    with that(1) mem eq have "x = (port msg, old)"
      by fastforce
    with that(2) show False by simp
  qed
  have dist: "distinct (map fst (peripherals h))"
    using assms(2) by (simp add: well_formed_def ports_def)
  have dropped: "\<forall>x \<in> set (AList.update (port msg) ?new (peripherals h)). obj_id (snd x) \<noteq> obj_id old"
    using others lt by (auto simp: set_update_distinct [OF dist] new_peripheral_def)
  have "ports (snd (handle_device_change e h msg)) = ports h"
    using key by (simp add: run ports_def update_keys)
  moreover have "well_formed (snd (handle_device_change e h msg))"
    using assms(1,2) by (rule attach_keeps_well_formed)
  moreover have "obj_id ?new = next_id h \<and> obj_id ?new \<noteq> obj_id old \<and>
      pclass ?new = device_class e msg \<and> periph_port ?new = port msg"
    using lt by (simp add: new_peripheral_def)
  ultimately show ?thesis
    using dropped by (simp add: run update_conv')
qed

theorem attach_on_present_port_replaces_witness:
  "attach_notification sample_ext (attach_msg 0 0x25) \<and>
   well_formed hub_with_motor \<and>
   map_of (peripherals hub_with_motor) (port (attach_msg 0 0x25)) =
     Some (new_peripheral EncodedMotor 0 0) \<and>
   fst (handle_device_change sample_ext hub_with_motor (attach_msg 0 0x25)) = None \<and>
   ports (snd (handle_device_change sample_ext hub_with_motor (attach_msg 0 0x25))) = [0] \<and>
   peripherals (snd (handle_device_change sample_ext hub_with_motor (attach_msg 0 0x25))) =
     [(0, new_peripheral VisionSensor 0 1)]"
proof -
  have a: "attach_notification sample_ext (attach_msg 0 0x25)"
    by (simp add: attach_notification_def sample_defs)
  have w: "well_formed hub_with_motor"
    by (simp add: hub_with_motor well_formed_def ports_def Hub_init_def new_peripheral_def)
  have m: "map_of (peripherals hub_with_motor) (port (attach_msg 0 0x25)) =
     Some (new_peripheral EncodedMotor 0 0)"
    by (simp add: hub_with_motor attach_msg_def)
  have r: "peripherals (snd (handle_device_change sample_ext hub_with_motor (attach_msg 0 0x25))) =
     [(0, new_peripheral VisionSensor 0 1)]"
    by (simp add: hub_with_motor handler_defs sample_defs)
  show ?thesis
    using attach_on_present_port_replaces [OF a w m]
    by (simp add: a w m r ports_def)
qed

subsection \<open>Replaying attach and detach notifications\<close>

lemma last_event_attach_Cons:
  "last_event_attach e (msg # rest) p =
     (if p \<in> port ` set rest then last_event_attach e rest p
      else port msg = p \<and> event msg \<noteq> EVENT_DETACHED e)"
proof (cases "p \<in> port ` set rest")
  case True
  then have "filter (\<lambda>msg. port msg = p) rest \<noteq> []"
    by (auto simp: filter_empty_conv)
  with True show ?thesis
    by (simp add: last_event_attach_def)
next
  case False
  then have "filter (\<lambda>msg. port msg = p) rest = []"
    by (auto simp: filter_empty_conv)
  with False show ?thesis
    by (simp add: last_event_attach_def)
qed

lemma last_event_attach_unnamed:
  "p \<notin> port ` set evs \<Longrightarrow> \<not> last_event_attach e evs p"
  by (auto simp: last_event_attach_def Let_def filter_empty_conv)

lemma replay_ports:
  assumes "distinct (ports h)" and "valid_events e (set (ports h)) evs"
  shows "fst (replay e h evs) = None \<and>
         distinct (ports (snd (replay e h evs))) \<and>
         set (ports (snd (replay e h evs))) =
           {p. if p \<in> port ` set evs then last_event_attach e evs p else p \<in> set (ports h)}"
  using assms
proof (induction evs arbitrary: h)
  case Nil
  then show ?case by simp
next
  case (Cons msg rest)
  let ?h1 = "snd (handle_device_change e h msg)"
  have step: "fst (handle_device_change e h msg) = None \<and> distinct (ports ?h1) \<and>
      set (ports ?h1) = (if event msg = EVENT_DETACHED e then set (ports h) - {port msg}
                         else insert (port msg) (set (ports h)))"
  proof (cases "event msg = EVENT_DETACHED e")
    case True
    with Cons.prems have "port msg \<in> set (ports h)" by simp
    then obtain dev where "map_of (peripherals h) (port msg) = Some dev"
      by (cases "map_of (peripherals h) (port msg)") (auto simp: ports_def map_of_eq_None_iff)
    with True Cons.prems(1) show ?thesis
      by (simp add: handle_detach ports_def delete_keys distinct_removeAll)
  next
    case False
    with Cons.prems have "attach_notification e msg" by simp
    from ports_after_attach(1,3,4) [OF this, where h = h] False Cons.prems(1) show ?thesis
      by simp
  qed
  then have run: "replay e h (msg # rest) = replay e ?h1 rest"
    by (cases "handle_device_change e h msg") simp
  have valid: "valid_events e (set (ports ?h1)) rest"
    using Cons.prems(2) step by (simp split: if_splits)
  from step have "distinct (ports ?h1)" by simp
  from Cons.IH [OF this valid]
  have IH: "fst (replay e ?h1 rest) = None" "distinct (ports (snd (replay e ?h1 rest)))"
    "set (ports (snd (replay e ?h1 rest))) =
       {p. if p \<in> port ` set rest then last_event_attach e rest p else p \<in> set (ports ?h1)}"
    by simp_all
  have pointwise: "(if p \<in> port ` set rest then last_event_attach e rest p
                    else p \<in> set (ports ?h1)) =
                   (if p \<in> port ` set (msg # rest) then last_event_attach e (msg # rest) p
                    else p \<in> set (ports h))" for p
  proof (cases "p \<in> port ` set rest")
    case True
    then show ?thesis by (simp add: last_event_attach_Cons)
  next
    case False
    show ?thesis
    proof (cases "event msg = EVENT_DETACHED e")
      case True
      with step have "set (ports ?h1) = set (ports h) - {port msg}" by simp
      with False True show ?thesis
        by (auto simp: last_event_attach_Cons)
    next
      case ev: False
      with step have "set (ports ?h1) = insert (port msg) (set (ports h))" by simp
      with False ev show ?thesis
        by (auto simp: last_event_attach_Cons)
    qed
  qed
  show ?case
    unfolding run using IH(1,2) by (simp only: IH(3) pointwise simp_thms)
qed

lemma valid_events_take: "valid_events e present evs \<Longrightarrow> valid_events e present (take n evs)"
proof (induction evs arbitrary: present n)
  case Nil
  then show ?case by simp
next
  case (Cons msg rest)
  then show ?case by (cases n) (auto split: if_splits)
qed

text \<open>
  C1. Take a hub with no peripherals and a sequence of attach and detach
  notifications in which each detach names a port present at that moment. After
  every prefix of the sequence the replay through the attachment handler has
  raised nothing, the keys of \<^verbatim>\<open>peripherals\<close> are exactly the ports whose last
  event so far was an attach (so each attach has inserted its port and each detach
  has removed its port), and no key occurs twice.
\<close>

theorem replay_tracks_attached_ports:
  assumes "peripherals h = []" and "valid_events e {} evs"
  shows "\<forall>n \<le> length evs.
           fst (replay e h (take n evs)) = None \<and>
           set (ports (snd (replay e h (take n evs)))) = {p. last_event_attach e (take n evs) p} \<and>
           distinct (ports (snd (replay e h (take n evs))))"
proof (intro allI impI)
  fix n
  have p: "ports h = []"
    using assms(1) by (simp add: ports_def)
  have "valid_events e (set (ports h)) (take n evs)"
    using assms(2) by (simp add: p valid_events_take)
  from replay_ports [OF _ this]
  show "fst (replay e h (take n evs)) = None \<and>
        set (ports (snd (replay e h (take n evs)))) = {p. last_event_attach e (take n evs) p} \<and>
        distinct (ports (snd (replay e h (take n evs))))"
    using last_event_attach_unnamed [of _ "take n evs" e]
    by (auto simp: p)
qed

theorem replay_tracks_attached_ports_witness:
  "peripherals Hub_init = [] \<and> valid_events sample_ext {} sample_events \<and>
   fst (replay sample_ext Hub_init sample_events) = None \<and>
   set (ports (snd (replay sample_ext Hub_init sample_events))) =
     {p. last_event_attach sample_ext sample_events p} \<and>
   ports (snd (replay sample_ext Hub_init sample_events)) = [1, 0x32]"
proof -
  have i: "peripherals Hub_init = []"
    by (simp add: Hub_init_def)
  have v: "valid_events sample_ext {} sample_events"
    by (simp add: sample_events_def sample_attach sample_messages)
  have r: "ports (snd (replay sample_ext Hub_init sample_events)) = [1, 0x32]"
    by (simp add: sample_events_def ports_def sample_attach_run sample_detach_run
        sample_classes i)
  have l: "take (length sample_events) sample_events = sample_events"
    by simp
  show ?thesis
    using replay_tracks_attached_ports [OF i v, rule_format, of "length sample_events"]
    by (simp only: i v r l order_refl simp_thms)
qed

subsection \<open>The pending request and the reply queue\<close>

lemma sync_log_call [simp]:
  "sync_request (log_call l h) = sync_request h" "sync_replies (log_call l h) = sync_replies h"
  "msg_handlers (log_call l h) = msg_handlers h"
  by (simp_all add: log_call_def)

lemma sync_install [simp]:
  "sync_request (install c p h) = sync_request h" "sync_replies (install c p h) = sync_replies h"
  by (simp_all add: install_def)

lemma sync_attach_details [simp]:
  "sync_request (snd (attach_details e h msg)) = sync_request h"
  "sync_replies (snd (attach_details e h msg)) = sync_replies h"
  by (simp_all add: attach_details_def split: option.splits sum.splits)

lemma sync_same_device_change: "sync_same h (snd (handle_device_change e h msg))"
  by (simp add: sync_same_def handle_device_change_def Let_def split: option.splits sum.splits)

lemma sync_bind [simp]:
  "sync_request (bind_port p dev h) = sync_request h"
  "sync_replies (bind_port p dev h) = sync_replies h"
  "sync_request (bind_type p dev h) = sync_request h"
  "sync_replies (bind_type p dev h) = sync_replies h"
  by (simp_all add: bind_port_def bind_type_def)


lemma sync_same_sensor_data: "sync_same h (snd (handle_sensor_data e h msg))"
  by (simp add: sync_same_def handle_sensor_data_def split: sum.splits)

lemma sync_same_action: "sync_same h (snd (handle_action e h msg))"
  by (simp add: sync_same_def handle_action_def)

lemma handle_error_outcome: "sync_outcome msg h (handle_error e h msg)"
  by (cases "sync_replies h")
    (auto simp: sync_outcome_def sync_same_def handle_error_def queue_put_def Let_def)

lemma run_handler_outcome:
  assumes "\<And>h m. sync_same h (snd (own e h m))"
  shows "sync_outcome msg h (run_handler e own f h msg)"
proof (cases f)
  case HandleError
  then show ?thesis by (simp add: run_handler_def handle_error_outcome)
next
  case HandleDeviceChange
  then show ?thesis using assms by (simp add: run_handler_def sync_outcome_def)
next
  case HandleSensorData
  then show ?thesis by (simp add: run_handler_def sync_outcome_def sync_same_sensor_data)
next
  case HandleAction
  then show ?thesis by (simp add: run_handler_def sync_outcome_def sync_same_action)
next
  case (External k)
  then show ?thesis by (simp add: run_handler_def sync_outcome_def sync_same_def)
qed


lemma dispatch_outcome:
  assumes "\<And>h m. sync_same h (snd (own e h m))"
  shows "sync_outcome msg h (dispatch e own hs h msg)"
proof (induction hs arbitrary: h)
  case Nil
  then show ?case by (simp add: sync_outcome_def sync_same_def)
next
  case (Cons entry hs)
  obtain c f where entry: "entry = (c, f)" by (cases entry)
  show ?case
  proof (cases "mclass msg = c")
    case False
    with Cons.IH [of h] entry show ?thesis by simp
  next
    case True
    let ?h0 = "log_call (Debug_Handling f msg) h"
    obtain r h1 where run: "run_handler e own f ?h0 msg = (r, h1)"
      by (cases "run_handler e own f ?h0 msg")
    have first: "sync_outcome msg ?h0 (r, h1)"
      using run_handler_outcome [where own = own and e = e, OF assms, of msg ?h0 f] by (simp add: run)
    show ?thesis
    proof (cases r)
      case (Some err)
      with True entry run first show ?thesis
        by (simp add: sync_outcome_def sync_same_def)
    next
      case None
      have rest: "sync_outcome msg h1 (dispatch e own hs h1 msg)"
        by (rule Cons.IH)
      have "sync_outcome msg h (dispatch e own hs h1 msg)"
        using first rest None
        by (auto simp: sync_outcome_def sync_same_def)
      with True entry run None show ?thesis by simp
    qed
  qed
qed

lemma correlate_outcome: "sync_outcome msg h (correlate e h msg)"
  by (cases "sync_replies h")
    (auto simp: sync_outcome_def sync_same_def correlate_def queue_put_def
      split: option.splits)

lemma notify_outcome:
  assumes "\<And>h m. sync_same h (snd (own e h m))"
  shows "case get_upstream_msg e data of
           Inl err \<Rightarrow> sync_same h (snd (notify e own h handle data))
         | Inr msg \<Rightarrow> sync_outcome msg h (notify e own h handle data)"
proof (cases "get_upstream_msg e data")
  case (Inl err)
  then show ?thesis by (simp add: notify_def sync_same_def)
next
  case (Inr msg)
  let ?h0 = "log_call (Debug_Decoded msg) (log_call (Debug_Notification handle data) h)"
  obtain r h1 where cor: "correlate e ?h0 msg = (r, h1)"
    by (cases "correlate e ?h0 msg")
  have first: "sync_outcome msg ?h0 (r, h1)"
    using correlate_outcome [of msg ?h0 e] by (simp add: cor)
  show ?thesis
  proof (cases r)
    case (Some err)
    with Inr cor first show ?thesis
      by (simp add: notify_def sync_outcome_def sync_same_def)
  next
    case None
    have rest: "sync_outcome msg h1 (dispatch e own (msg_handlers h1) h1 msg)"
      by (rule dispatch_outcome [where own = own and e = e, OF assms])
    have "sync_outcome msg h (dispatch e own (msg_handlers h1) h1 msg)"
      using first rest None by (auto simp: sync_outcome_def sync_same_def)
    with Inr cor None show ?thesis by (simp add: notify_def)
  qed
qed

lemma notify_sync:
  assumes "\<And>h m. sync_same h (snd (own e h m))"
  shows "sync_same h (snd (notify e own h handle data)) \<or>
         (\<exists>msg. get_upstream_msg e data = Inr msg \<and>
                sync_outcome msg h (notify e own h handle data))"
  using notify_outcome [where own = own and e = e and data = data and h = h and handle = handle, OF assms]
  by (cases "get_upstream_msg e data") simp_all





lemmas notify_defs =
  notify_def get_upstream_msg_def correlate_def queue_put_def run_handler_def handle_error_def
  handle_action_def handle_sensor_data_def log_call_def

lemmas sync_sample_defs =
  port_request_def property_request_def error_frame_def error_msg_def property_frame_def
  property_msg_def pending_hub_def sample_ext_def sample_usbyte_def sample_decode_def
  Hub_init_def

lemmas movehub_sample_defs =
  MoveHub_init_def Hub_init_def hub.defs movehub.defs

lemma sample_decode_error: "get_upstream_msg sample_ext error_frame = Inr error_msg"
  by (simp add: get_upstream_msg_def sync_sample_defs)









subsection \<open>One pending request\<close>

lemma send_request_rejected:
  assumes "sync_request h \<noteq> None" and "needs_reply msg"
  shows "send_request e h msg = (Some AssertionError, log_call (Debug_Send msg) h)"
  using assms by (simp add: send_request_def Let_def)

lemma send_request_accepted:
  assumes "sync_request h = None" and "needs_reply msg"
  shows "send_request e h msg =
     (None, h\<lparr>logged := logged h @ [Debug_Send msg, Debug_Waiting msg],
              sync_request := Some msg,
              written := written h @ [(HUB_HARDWARE_HANDLE, msg_bytes e msg)]\<rparr>)"
  using assms by (simp add: send_request_def Let_def log_call_def)

lemma send_request_async:
  assumes "\<not> needs_reply msg"
  shows "send_request e h msg =
     (None, h\<lparr>logged := logged h @ [Debug_Send msg],
              written := written h @ [(HUB_HARDWARE_HANDLE, msg_bytes e msg)]\<rparr>)"
  using assms by (simp add: send_request_def Let_def log_call_def)

lemma send_fetch_request [simp]: "sync_request (snd (send_fetch e h)) = sync_request h"
  by (simp add: send_fetch_def Let_def log_call_def split: list.splits)

lemma notify_request:
  assumes "\<And>h m. sync_same h (snd (own e h m))"
  shows "sync_request (snd (notify e own h handle data)) = sync_request h \<or>
         (sync_request h \<noteq> None \<and> sync_request (snd (notify e own h handle data)) = None)"
  using notify_sync [where own = own and e = e and data = data and h = h and handle = handle,
      OF assms]
  by (auto simp: sync_outcome_def sync_same_def)

lemma step_pending:
  assumes "n = (if sync_request h = None then 0 else 1)"
  shows "n + recorded e h ev - cleared e h ev =
         (if sync_request (hub_step e h ev) = None then 0 else 1)"
proof (cases ev)
  case (Call_send msg)
  show ?thesis
  proof (cases "needs_reply msg")
    case False
    with Call_send assms show ?thesis
      by (simp add: recorded_def cleared_def hub_step_def send_request_async)
  next
    case True
    with Call_send assms show ?thesis
      by (cases "sync_request h")
        (simp_all add: recorded_def cleared_def hub_step_def send_request_accepted
          send_request_rejected)
  qed
next
  case (Deliver handle data)
  have "\<And>h m. sync_same h (snd (handle_device_change e h m))"
    by (rule sync_same_device_change)
  from notify_request [where own = handle_device_change and e = e, OF this, of h handle data]
    Deliver assms
  show ?thesis
    by (auto simp: recorded_def cleared_def hub_step_def)
next
  case Take_reply
  with assms show ?thesis
    by (simp add: recorded_def cleared_def hub_step_def)
next
  case (Register c k)
  with assms show ?thesis
    by (simp add: recorded_def cleared_def hub_step_def add_message_handler_def)
qed

lemma run_pending:
  assumes "n = (if sync_request h = None then 0 else 1)"
  shows "pending_requests e h n evs = (if sync_request (hub_run e h evs) = None then 0 else 1)"
  using assms
proof (induction evs arbitrary: h n)
  case Nil
  then show ?case by simp
next
  case (Cons ev evs)
  from step_pending [OF Cons.prems]
  have "pending_requests e (hub_step e h ev) (n + recorded e h ev - cleared e h ev) evs =
        (if sync_request (hub_run e (hub_step e h ev) evs) = None then 0 else 1)"
    by (rule Cons.IH)
  then show ?case by simp
qed

text \<open>
  C2. In any state with a pending request, \<^verbatim>\<open>send\<close> of a message that needs a
  reply raises \<^verbatim>\<open>AssertionError\<close> with nothing written to the connection and the
  pending request and the reply queue as they were. In every run from the initial
  state, the number of requests recorded and not yet cleared is at most 1, and it
  is 1 exactly when \<^verbatim>\<open>_sync_request\<close> is set.
\<close>

theorem second_sync_send_rejected:
  "(sync_request h \<noteq> None \<and> needs_reply msg \<longrightarrow>
      fst (send e own h msg notifs) = Inl AssertionError \<and>
      written (snd (send e own h msg notifs)) = written h \<and>
      sync_request (snd (send e own h msg notifs)) = sync_request h \<and>
      sync_replies (snd (send e own h msg notifs)) = sync_replies h) \<and>
   pending_requests e Hub_init 0 evs \<le> 1 \<and>
   (pending_requests e Hub_init 0 evs = 1 \<longleftrightarrow> sync_request (hub_run e Hub_init evs) \<noteq> None)"
proof -
  have "sync_request Hub_init = None"
    by (simp add: Hub_init_def)
  then have "pending_requests e Hub_init 0 evs =
             (if sync_request (hub_run e Hub_init evs) = None then 0 else 1)"
    by (intro run_pending) simp
  then show ?thesis
    by (auto simp: send_def send_request_rejected log_call_def)
qed

theorem second_sync_send_rejected_witness:
  "sync_request (pending_hub port_request) \<noteq> None \<and> needs_reply property_request \<and>
   fst (send sample_ext handle_device_change (pending_hub port_request) property_request
     [(14, property_frame)]) = Inl AssertionError \<and>
   written (snd (send sample_ext handle_device_change (pending_hub port_request) property_request
     [(14, property_frame)])) = [] \<and>
   pending_requests sample_ext Hub_init 0 [Call_send port_request, Call_send property_request] = 1 \<and>
   sync_request (hub_run sample_ext Hub_init [Call_send port_request, Call_send property_request])
     = Some port_request"
proof -
  have a: "sync_request (pending_hub port_request) \<noteq> None" "needs_reply property_request"
    "written (pending_hub port_request) = []"
    by (simp_all add: pending_hub_def property_request_def Hub_init_def)
  have r: "sync_request (hub_run sample_ext Hub_init
             [Call_send port_request, Call_send property_request]) = Some port_request"
    by (simp add: hub_step_def send_request_def log_call_def Hub_init_def port_request_def
        property_request_def)
  show ?thesis
    using second_sync_send_rejected [where h = "pending_hub port_request"
        and msg = property_request and e = sample_ext and own = handle_device_change
        and notifs = "[(14, property_frame)]"
        and evs = "[Call_send port_request, Call_send property_request]"]
    by (simp add: a r del: hub_run.simps pending_requests.simps)
qed

subsection \<open>An error as the reply\<close>

lemma wait_reply_ready:
  "sync_replies h \<noteq> [] \<Longrightarrow> wait_reply e own h notifs = send_fetch e h"
  by (cases notifs) auto

lemma send_fetch_item:
  assumes "sync_replies h = [resp]"
  shows "send_fetch e h =
     (if mclass resp = MsgGenericError then Inl (RuntimeError (message e resp))
      else Inr (Some resp),
      h\<lparr>sync_replies := [], logged := logged h @ [Debug_Fetched resp]\<rparr>)"
  using assms by (simp add: send_fetch_def Let_def log_call_def)

lemma reply_result_later: "reply_result e rest req r \<Longrightarrow> reply_result e (n # rest) req r"
  unfolding reply_result_def by (elim disjE exE conjE) (simp, fastforce)

lemma reply_result_fetched:
  assumes "get_upstream_msg e data = Inr resp" and "sync_request h = None"
    and "sync_replies h = [resp]"
  shows "reply_result e ((handle, data) # rest) req (send_fetch e h)"
proof -
  have "(handle, data) \<in> set ((handle, data) # rest) \<and> get_upstream_msg e data = Inr resp"
    using assms(1) by simp
  then have "\<exists>handle' data'. (handle', data') \<in> set ((handle, data) # rest) \<and>
                             get_upstream_msg e data' = Inr resp"
    by blast
  then show ?thesis
    unfolding reply_result_def using assms(2)
    by (intro disjI2 exI [of _ resp]) (simp add: send_fetch_item [OF assms(3)])
qed

lemma wait_reply_pending:
  assumes own: "\<And>h m. sync_same h (snd (own e h m))"
    and "sync_request h = Some req" and "sync_replies h = []"
  shows "reply_result e notifs req (wait_reply e own h notifs)"
  using assms(2,3)
proof (induction notifs arbitrary: h)
  case Nil
  then show ?case by (simp add: send_fetch_def reply_result_def)
next
  case (Cons n rest)
  obtain handle data where n: "n = (handle, data)" by (cases n)
  let ?h1 = "snd (notify e own h handle data)"
  have unfold: "wait_reply e own h (n # rest) = wait_reply e own ?h1 rest"
    using Cons.prems(2) n by simp
  from notify_sync [where own = own and e = e and data = data and h = h and handle = handle,
      OF own]
  consider (same) "sync_request ?h1 = Some req" "sync_replies ?h1 = []"
    | (put) resp where "get_upstream_msg e data = Inr resp"
        "sync_request ?h1 = None" "sync_replies ?h1 = [resp]"
    using Cons.prems by (auto simp: sync_outcome_def sync_same_def)
  then show ?case
  proof cases
    case same
    from Cons.IH [OF same] show ?thesis
      unfolding unfold by (rule reply_result_later)
  next
    case put
    have fetch: "wait_reply e own ?h1 rest = send_fetch e ?h1"
      using put(3) by (simp add: wait_reply_ready)
    have "reply_result e (n # rest) req (send_fetch e ?h1)"
      unfolding n by (rule reply_result_fetched [OF put])
    then show ?thesis
      by (simp only: unfold fetch)
  qed
qed

text \<open>
  C4. A synchronous \<^verbatim>\<open>send\<close> from a hub with no pending request and an empty
  reply queue either waits for ever, or a reply \<open>resp\<close>, decoded from one of the
  notifications that arrived, was delivered to it. If that reply is a generic
  error, \<^verbatim>\<open>send\<close> raises \<^verbatim>\<open>RuntimeError\<close> with the text of the error message
  (otherwise it returns the reply); in both cases the pending request is cleared,
  the reply queue is empty, and the next \<^verbatim>\<open>send\<close> is accepted.
\<close>

theorem error_reply_raises_and_clears:
  assumes "sync_request h = None" and "sync_replies h = []" and "needs_reply msg"
  shows "fst (send e handle_device_change h msg notifs) = Inl Blocked \<or>
         (\<exists>resp. (\<exists>handle data. (handle, data) \<in> set notifs \<and>
                                get_upstream_msg e data = Inr resp) \<and>
            (mclass resp = MsgGenericError \<longrightarrow>
               fst (send e handle_device_change h msg notifs) =
                 Inl (RuntimeError (message e resp))) \<and>
            (mclass resp \<noteq> MsgGenericError \<longrightarrow>
               fst (send e handle_device_change h msg notifs) = Inr (Some resp)) \<and>
            sync_request (snd (send e handle_device_change h msg notifs)) = None \<and>
            sync_replies (snd (send e handle_device_change h msg notifs)) = [] \<and>
            (\<forall>msg2. fst (send_request e (snd (send e handle_device_change h msg notifs)) msg2)
                      = None))"
proof -
  let ?h1 = "h\<lparr>logged := logged h @ [Debug_Send msg, Debug_Waiting msg],
              sync_request := Some msg,
              written := written h @ [(HUB_HARDWARE_HANDLE, msg_bytes e msg)]\<rparr>"
  have run: "send e handle_device_change h msg notifs =
             wait_reply e handle_device_change ?h1 notifs"
    using assms(3) by (simp add: send_def send_request_accepted [OF assms(1,3)])
  have own: "\<And>h m. sync_same h (snd (handle_device_change e h m))"
    by (rule sync_same_device_change)
  have accept: "fst (send_request e h' msg2) = None" if "sync_request h' = None" for h' :: "'a hub_scheme" and msg2
    using that
    by (cases "needs_reply msg2") (simp_all add: send_request_accepted send_request_async)
  have "sync_request ?h1 = Some msg" and "sync_replies ?h1 = []"
    using assms(2) by simp_all
  from wait_reply_pending [where own = handle_device_change and e = e and notifs = notifs,
      OF own this]
  have "reply_result e notifs msg (wait_reply e handle_device_change ?h1 notifs)" .
  then consider (blocked) "fst (wait_reply e handle_device_change ?h1 notifs) = Inl Blocked"
    | (reply) resp handle data where "(handle, data) \<in> set notifs"
        "get_upstream_msg e data = Inr resp"
        "fst (wait_reply e handle_device_change ?h1 notifs) =
           (if mclass resp = MsgGenericError then Inl (RuntimeError (message e resp))
            else Inr (Some resp))"
        "sync_request (snd (wait_reply e handle_device_change ?h1 notifs)) = None"
        "sync_replies (snd (wait_reply e handle_device_change ?h1 notifs)) = []"
    unfolding reply_result_def by blast
  then show ?thesis
  proof cases
    case blocked
    then show ?thesis unfolding run by simp
  next
    case reply
    have "(\<exists>handle data. (handle, data) \<in> set notifs \<and> get_upstream_msg e data = Inr resp) \<and>
            (mclass resp = MsgGenericError \<longrightarrow>
               fst (wait_reply e handle_device_change ?h1 notifs) =
                 Inl (RuntimeError (message e resp))) \<and>
            (mclass resp \<noteq> MsgGenericError \<longrightarrow>
               fst (wait_reply e handle_device_change ?h1 notifs) = Inr (Some resp)) \<and>
            sync_request (snd (wait_reply e handle_device_change ?h1 notifs)) = None \<and>
            sync_replies (snd (wait_reply e handle_device_change ?h1 notifs)) = [] \<and>
            (\<forall>msg2. fst (send_request e (snd (wait_reply e handle_device_change ?h1 notifs)) msg2)
                      = None)"
      using reply accept [OF reply(4)] by auto
    then show ?thesis
      unfolding run by blast
  qed
qed

theorem error_reply_raises_and_clears_witness:
  "sync_request Hub_init = None \<and> sync_replies Hub_init = [] \<and> needs_reply port_request \<and>
   get_upstream_msg sample_ext error_frame = Inr error_msg \<and>
   mclass error_msg = MsgGenericError \<and>
   fst (send sample_ext handle_device_change Hub_init port_request [(14, error_frame)]) =
     Inl (RuntimeError (message sample_ext error_msg)) \<and>
   sync_request (snd (send sample_ext handle_device_change Hub_init port_request
      [(14, error_frame)])) = None \<and>
   fst (send_request sample_ext (snd (send sample_ext handle_device_change Hub_init port_request
      [(14, error_frame)])) property_request) = None"
proof -
  have i: "sync_request Hub_init = None" "sync_replies Hub_init = []" "needs_reply port_request"
    by (simp_all add: Hub_init_def port_request_def)
  have d: "get_upstream_msg sample_ext data = Inr resp \<Longrightarrow> (handle, data) \<in> set [(14, error_frame)]
           \<Longrightarrow> resp = error_msg" for data resp handle
    by (simp add: sample_decode_error)
  have c: "mclass error_msg = MsgGenericError"
    by (simp add: error_msg_def)
  have nb: "fst (send sample_ext handle_device_change Hub_init port_request [(14, error_frame)])
            \<noteq> Inl Blocked"
    by (simp add: send_def send_request_def send_fetch_def notify_defs sync_sample_defs
        HUB_HARDWARE_HANDLE_def)
  show ?thesis
    using error_reply_raises_and_clears [OF i, of sample_ext "[(14, error_frame)]"] nb
    by (auto simp: i c sample_decode_error dest: d)
qed

subsection \<open>Which notification is the reply\<close>












subsection \<open>The shortcut fields on a detach\<close>

lemma shortcuts_update [simp]:
  "shortcuts (h\<lparr>logged := l\<rparr>) = shortcuts h"
  "shortcuts (h\<lparr>peripherals := ps\<rparr>) = shortcuts h"
  by (simp_all add: shortcuts_def)

text \<open>
  C9. A detach notification handled by \<^verbatim>\<open>MoveHub._handle_device_change\<close>
  leaves all eleven shortcut fields as they were, whether the call raises or not.
  So when the port held a peripheral that a shortcut field refers to, the call
  returns normally, the port is no key of \<^verbatim>\<open>peripherals\<close> any more, and the
  shortcut field still refers to the removed peripheral.
\<close>

theorem detach_keeps_shortcuts:
  assumes "event msg = EVENT_DETACHED e"
  shows "shortcuts (snd (movehub_handle_device_change e h msg)) = shortcuts h \<and>
         (\<forall>dev. map_of (peripherals h) (port msg) = Some dev \<and> Some dev \<in> set (shortcuts h) \<longrightarrow>
            fst (movehub_handle_device_change e h msg) = None \<and>
            map_of (peripherals (snd (movehub_handle_device_change e h msg))) (port msg) = None \<and>
            Some dev \<in> set (shortcuts (snd (movehub_handle_device_change e h msg))))"
proof (cases "map_of (peripherals h) (port msg)")
  case None
  with assms show ?thesis
    by (simp add: movehub_handle_device_change_def handle_detach)
next
  case (Some dev)
  with assms show ?thesis
    by (simp add: movehub_handle_device_change_def handle_detach delete_conv')
qed

lemma movehub_with_motor:
  "motor_A movehub_with_motor = Some (new_peripheral EncodedMotor 0 0)"
  "peripherals movehub_with_motor = [(0, new_peripheral EncodedMotor 0 0)]"
  "shortcuts movehub_with_motor =
     [Some (new_peripheral EncodedMotor 0 0), None, None, None, None, None, None, None, None,
      None, None]"
  by (simp_all add: movehub_with_motor_def movehub_handle_device_change_def sample_attach_run
      sample_classes sample_messages lookup_def bind_port_def bind_type_def PORT_A_def PORT_B_def
      PORT_AB_def movehub_sample_defs new_peripheral_def shortcuts_def)

theorem detach_keeps_shortcuts_witness:
  "event (detach_msg 0) = EVENT_DETACHED sample_ext \<and>
   map_of (peripherals movehub_with_motor) (port (detach_msg 0)) =
     Some (new_peripheral EncodedMotor 0 0) \<and>
   Some (new_peripheral EncodedMotor 0 0) \<in> set (shortcuts movehub_with_motor) \<and>
   fst (movehub_handle_device_change sample_ext movehub_with_motor (detach_msg 0)) = None \<and>
   map_of (peripherals (snd (movehub_handle_device_change sample_ext movehub_with_motor
     (detach_msg 0)))) (port (detach_msg 0)) = None \<and>
   shortcuts (snd (movehub_handle_device_change sample_ext movehub_with_motor (detach_msg 0))) =
     [Some (new_peripheral EncodedMotor 0 0), None, None, None, None, None, None, None, None,
      None, None]"
proof -
  have ev: "event (detach_msg 0) = EVENT_DETACHED sample_ext"
    by (rule sample_messages)
  have m: "map_of (peripherals movehub_with_motor) (port (detach_msg 0)) =
     Some (new_peripheral EncodedMotor 0 0)"
    by (simp add: movehub_with_motor(2) sample_messages)
  have s: "Some (new_peripheral EncodedMotor 0 0) \<in> set (shortcuts movehub_with_motor)"
    by (simp add: movehub_with_motor(3))
  note inst = detach_keeps_shortcuts [OF ev, of movehub_with_motor]
  from inst have "shortcuts (snd (movehub_handle_device_change sample_ext movehub_with_motor
      (detach_msg 0))) = shortcuts movehub_with_motor"
    by (rule conjunct1)
  then have a: "shortcuts (snd (movehub_handle_device_change sample_ext movehub_with_motor
      (detach_msg 0))) =
     [Some (new_peripheral EncodedMotor 0 0), None, None, None, None, None, None, None, None,
      None, None]"
    by (simp only: movehub_with_motor(3))
  from inst m s have b: "fst (movehub_handle_device_change sample_ext movehub_with_motor
      (detach_msg 0)) = None \<and>
     map_of (peripherals (snd (movehub_handle_device_change sample_ext movehub_with_motor
       (detach_msg 0)))) (port (detach_msg 0)) = None"
    by blast
  from ev m s a b show ?thesis
    by blast
qed

subsection \<open>Waiting for the built-in devices\<close>

lemma wait_loop_passes:
  assumes "num \<le> 60"
  shows "wait_loop g env num slept (pass_state g env num h) =
     (case List.find (\<lambda>k. all_present (g (pass_state g env k h))) [num..<60] of
        Some k \<Rightarrow>
          (None, slept + (k - num),
           log_call (Debug_AllPresent (g (pass_state g env k h))) (pass_state g env k h))
      | None \<Rightarrow>
          (None, slept + (60 - num),
           log_call (Warning_GotOnly (g (pass_state g env 60 h))) (pass_state g env 60 h)))"
  using assms
proof (induction "60 - num" arbitrary: num slept)
  case 0
  then have "num = 60" by simp
  then show ?case
    by (simp add: wait_loop.simps [of g env 60])
next
  case (Suc d)
  then have lt: "num < 60" and d: "d = 60 - Suc num" and le: "Suc num \<le> 60"
    by simp_all
  have upt: "[num..<60] = num # [Suc num..<60]"
    using lt by (simp add: upt_conv_Cons)
  show ?case
  proof (cases "all_present (g (pass_state g env num h))")
    case True
    with lt show ?thesis
      by (simp add: wait_loop.simps [of g env num] upt all_present_def Let_def)
  next
    case False
    have later: "k - Suc num + Suc slept = slept + (k - num)"
      if "List.find (\<lambda>k. all_present (g (pass_state g env k h))) [Suc num..<60] = Some k" for k
    proof -
      from that have "k \<in> set [Suc num..<60]"
        by (auto simp: find_Some_iff in_set_conv_nth)
      then have "Suc num \<le> k" by simp
      then show ?thesis by arith
    qed
    have "wait_loop g env num slept (pass_state g env num h) =
          wait_loop g env (Suc num) (Suc slept) (pass_state g env (Suc num) h)"
      using lt False
      by (simp add: wait_loop.simps [of g env num] all_present_def Let_def)
    also note Suc.hyps(1) [OF d le, of "Suc slept"]
    finally show ?thesis
      using False lt later
      by (auto simp: upt split: option.splits)
  qed
qed

text \<open>
  C7. \<^verbatim>\<open>_wait_for_devices\<close> always returns, and normally, whatever the other
  threads do to the hub meanwhile: it sleeps at most 60 times for 0.1 seconds. If
  pass \<open>k\<close> is the first of the 60 passes in which all devices are set, it
  returns in that pass, after \<open>k\<close> sleeps, having logged that all are present.
  If there is no such pass it sleeps 60 times, logs the warning with the device
  set and returns; nothing else is done to the hub and nothing is raised.
\<close>

theorem wait_for_devices_bounded:
  "fst (wait_for_devices get_dev_set env h) = None \<and>
   fst (snd (wait_for_devices get_dev_set env h)) \<le> 60 \<and>
   wait_for_devices get_dev_set env h =
     (case List.find
             (\<lambda>k. all_present (dev_set_of get_dev_set (pass_state (dev_set_of get_dev_set) env k h)))
             [0..<60] of
        Some k \<Rightarrow>
          (None, k,
           log_call (Debug_AllPresent
                       (dev_set_of get_dev_set (pass_state (dev_set_of get_dev_set) env k h)))
             (pass_state (dev_set_of get_dev_set) env k h))
      | None \<Rightarrow>
          (None, 60,
           log_call (Warning_GotOnly
                       (dev_set_of get_dev_set (pass_state (dev_set_of get_dev_set) env 60 h)))
             (pass_state (dev_set_of get_dev_set) env 60 h)))"
proof -
  let ?g = "dev_set_of get_dev_set"
  have run: "wait_for_devices get_dev_set env h =
     (case List.find (\<lambda>k. all_present (?g (pass_state ?g env k h))) [0..<60] of
        Some k \<Rightarrow>
          (None, k, log_call (Debug_AllPresent (?g (pass_state ?g env k h))) (pass_state ?g env k h))
      | None \<Rightarrow>
          (None, 60, log_call (Warning_GotOnly (?g (pass_state ?g env 60 h)))
                       (pass_state ?g env 60 h)))"
  proof -
    have "wait_for_devices get_dev_set env h = wait_loop ?g env 0 0 (pass_state ?g env 0 h)"
      by (simp add: wait_for_devices_def dev_set_of_def)
    also note wait_loop_passes [of 0 ?g env 0 h]
    finally show ?thesis by (simp split: option.splits)
  qed
  have bound: "k < 60"
    if "List.find (\<lambda>k. all_present (?g (pass_state ?g env k h))) [0..<60] = Some k" for k
  proof -
    from that have "k \<in> set [0..<60]"
      by (auto simp: find_Some_iff in_set_conv_nth)
    then show ?thesis by simp
  qed
  show ?thesis
    using bound unfolding run
    by (cases "List.find (\<lambda>k. all_present (?g (pass_state ?g env k h))) [0..<60]") auto
qed

lemma sample_classes2:
  "device_class sample_ext (attach_msg p 0x28) = TiltSensor"
  "device_class sample_ext (attach_msg p 0x15) = Current"
  "device_class sample_ext (attach_msg p 0x14) = Voltage"
  "PERIPHERAL_TYPES sample_ext (unat (0x28 :: 8 word)) = Some TiltSensor"
  "PERIPHERAL_TYPES sample_ext (unat (0x15 :: 8 word)) = Some Current"
  "PERIPHERAL_TYPES sample_ext (unat (0x14 :: 8 word)) = Some Voltage"
  by (simp_all add: device_class_def PERIPHERAL_TYPES_def sample_defs)

lemma sample_wait:
  "default_dev_set MoveHub_init = [None, None, None, None, None, None, None]"
  "default_dev_set (sample_env 0 (log_call l MoveHub_init)) =
     [Some (new_peripheral EncodedMotor 0x00 0), Some (new_peripheral EncodedMotor 0x01 1),
      Some (new_peripheral EncodedMotor 0x10 2), Some (new_peripheral LEDRGB 0x32 3),
      Some (new_peripheral TiltSensor 0x3A 4), Some (new_peripheral Current 0x3B 5),
      Some (new_peripheral Voltage 0x3C 6)]"
  by (simp_all add: default_dev_set_def sample_env_def builtin_attach_def
      movehub_handle_device_change_def sample_attach_run sample_classes sample_classes2
      sample_messages lookup_def bind_port_def bind_type_def PORT_A_def PORT_B_def PORT_AB_def
      PORT_C_def PORT_D_def PORT_LED_def PORT_TILT_SENSOR_def PORT_CURRENT_def PORT_VOLTAGE_def
      movehub_sample_defs new_peripheral_def log_call_def update_conv')

lemma pass_state_idle:
  "default_dev_set (pass_state default_dev_set (\<lambda>num h. h) k h) = default_dev_set h"
  by (induction k) (simp_all add: default_dev_set_def log_call_def)

theorem wait_for_devices_bounded_witness:
  "fst (wait_for_devices None sample_env MoveHub_init) = None \<and>
   fst (snd (wait_for_devices None sample_env MoveHub_init)) = 1 \<and>
   fst (wait_for_devices None (\<lambda>num h. h) MoveHub_init) = None \<and>
   fst (snd (wait_for_devices None (\<lambda>num h. h) MoveHub_init)) = 60"
proof -
  have f: "List.find (\<lambda>k. all_present (dev_set_of None (pass_state (dev_set_of None) sample_env k
      MoveHub_init))) [0..<60] = Some 1"
    by (simp add: upt_conv_Cons [of 0 60] upt_conv_Cons [of "Suc 0" 60] dev_set_of_def
        all_present_def sample_wait del: upt_rec_numeral upt_Suc)
  have g: "List.find (\<lambda>k. all_present (dev_set_of None (pass_state (dev_set_of None)
      (\<lambda>num h. h) k MoveHub_init))) [0..<60] = None"
    by (simp add: find_None_iff dev_set_of_def pass_state_idle sample_wait(1) all_present_def)
  show ?thesis
    using wait_for_devices_bounded [of None sample_env MoveHub_init]
      wait_for_devices_bounded [of None "\<lambda>num h. h" MoveHub_init]
    by (simp add: f g)
qed

end
